theory Spec2Isabelle
  imports Complex_Main "HOL-Library.Multiset"
begin

section \<open>Market-making ledger and PnL attribution: a shallow embedding\<close>

text \<open>
  The Python sources compute with \<^verbatim>\<open>float\<close>. The definitions below are polymorphic in
  the number type and use only the operations the code uses, in the order and with the
  association the code has, so that a property holding "by construction" is proved for any
  arithmetic. Properties that need algebraic laws (commutativity, distributivity) are proved
  at type \<^typ>\<open>real\<close>, the exact-arithmetic reading of the floats; rounding and NaN are
  outside that reading. A \<^verbatim>\<open>pd.Timestamp\<close> is an element of a linear order, here
  \<^typ>\<open>int\<close>.

  Several dataclasses share field names (\<^verbatim>\<open>ticker\<close>, \<^verbatim>\<open>trade_volume\<close>, ...); the
  record fields carry a prefix naming the class: \<open>qt_\<close> QuotedTrade, \<open>ct_\<close> CompletedTrade,
  \<open>etf_\<close> ETFPosition, \<open>ex_\<close> ExecutedTrade, \<open>xo_\<close> ExchangeTrade (the order sent to the
  exchange), \<open>pos_\<close> Position.
\<close>

subsection \<open>trading/trades.py, trading/market_maker.py, trading/exchange.py: records\<close>

type_synonym date = int

datatype error = ValueError string | KeyError | TypeError | ZeroDivisionError

record 'a QuotedTrade =
  qt_ticker :: string
  qt_trade_volume :: 'a
  qt_ref_price :: 'a
  qt_bid_price :: 'a
  qt_offer_price :: 'a
  qt_date :: date

record 'a CompletedTrade =
  ct_ticker :: string
  ct_trade_volume :: 'a
  ct_trade_price :: 'a
  ct_mm_action :: string
  ct_ref_price :: 'a
  ct_bid_price :: 'a
  ct_offer_price :: 'a
  ct_date :: date

record 'a Position =
  pos_ticker :: string
  position_volume :: 'a

record 'a ETFPosition =
  etf_ticker :: string
  etf_trade_volume :: 'a
  etf_trade_price :: 'a
  etf_action :: string
  etf_date :: date

record 'a ExecutedTrade =
  ex_ticker :: string
  ex_trade_volume :: 'a
  ex_trade_price :: 'a
  ex_action :: string
  ex_date :: date

record 'a ExchangeTrade =
  xo_ticker :: string
  xo_trade_volume :: 'a
  xo_ref_price :: 'a
  xo_action :: string
  xo_date :: date

text \<open>
  The classes are plain \<^verbatim>\<open>@dataclass\<close>es with no \<^verbatim>\<open>__post_init__\<close>: the generated
  \<^verbatim>\<open>__init__\<close> stores its arguments and has no raising branch. The constructors are
  given the result type \<open>error + record\<close> so that "construction fails" can be stated.
\<close>

definition QuotedTrade_init ::
  "string \<Rightarrow> 'a \<Rightarrow> 'a \<Rightarrow> 'a \<Rightarrow> 'a \<Rightarrow> date \<Rightarrow> error + 'a QuotedTrade" where
  "QuotedTrade_init ticker trade_volume ref_price bid_price offer_price dt =
     Inr \<lparr>qt_ticker = ticker, qt_trade_volume = trade_volume, qt_ref_price = ref_price,
          qt_bid_price = bid_price, qt_offer_price = offer_price, qt_date = dt\<rparr>"

definition CompletedTrade_init ::
  "string \<Rightarrow> 'a \<Rightarrow> 'a \<Rightarrow> string \<Rightarrow> 'a \<Rightarrow> 'a \<Rightarrow> 'a \<Rightarrow> date \<Rightarrow> error + 'a CompletedTrade" where
  "CompletedTrade_init ticker trade_volume trade_price mm_action ref_price bid_price
       offer_price dt =
     Inr \<lparr>ct_ticker = ticker, ct_trade_volume = trade_volume, ct_trade_price = trade_price,
          ct_mm_action = mm_action, ct_ref_price = ref_price, ct_bid_price = bid_price,
          ct_offer_price = offer_price, ct_date = dt\<rparr>"

definition ETFPosition_init ::
  "string \<Rightarrow> 'a \<Rightarrow> 'a \<Rightarrow> string \<Rightarrow> date \<Rightarrow> error + 'a ETFPosition" where
  "ETFPosition_init ticker trade_volume trade_price action dt =
     Inr \<lparr>etf_ticker = ticker, etf_trade_volume = trade_volume,
          etf_trade_price = trade_price, etf_action = action, etf_date = dt\<rparr>"

definition ExecutedTrade_init ::
  "string \<Rightarrow> 'a \<Rightarrow> 'a \<Rightarrow> string \<Rightarrow> date \<Rightarrow> error + 'a ExecutedTrade" where
  "ExecutedTrade_init ticker trade_volume trade_price action dt =
     Inr \<lparr>ex_ticker = ticker, ex_trade_volume = trade_volume,
          ex_trade_price = trade_price, ex_action = action, ex_date = dt\<rparr>"

subsection \<open>trading/market_maker.py: the ledger\<close>

text \<open>
  \<^verbatim>\<open>current_positions\<close> is a dict from ticker to a Position object; the logs are lists.
  A method that mutates \<^verbatim>\<open>self\<close> and may raise returns the pair of its outcome and the
  state it leaves behind, so that what was mutated before a \<^verbatim>\<open>raise\<close> stays visible.
  The returned message strings format floats (\<^verbatim>\<open>:.2f\<close>) and are not modelled: a normal
  return is \<open>Inr ()\<close>.
\<close>

record 'a MarketMaker =
  quoted_trades :: "'a QuotedTrade list"
  completed_trades :: "'a CompletedTrade list"
  current_positions :: "string \<rightharpoonup> 'a Position"
  ETF_positions :: "'a ETFPosition list"

definition MarketMaker_init ::
  "'a QuotedTrade list option \<Rightarrow> 'a CompletedTrade list option \<Rightarrow> 'a MarketMaker" where
  "MarketMaker_init quoted completed =
     \<lparr>quoted_trades = (case quoted of None \<Rightarrow> [] | Some q \<Rightarrow> q),
      completed_trades = (case completed of None \<Rightarrow> [] | Some c \<Rightarrow> c),
      current_positions = Map.empty,
      ETF_positions = []\<rparr>"

definition add_quoted_trade ::
  "'a MarketMaker \<Rightarrow> 'a QuotedTrade \<Rightarrow> (error + unit) \<times> 'a MarketMaker" where
  "add_quoted_trade mm trade = (Inr (), mm\<lparr>quoted_trades := quoted_trades mm @ [trade]\<rparr>)"

definition add_trade ::
  "('a::{zero,plus,minus}) MarketMaker \<Rightarrow> 'a CompletedTrade
     \<Rightarrow> (error + unit) \<times> 'a MarketMaker" where
  "add_trade mm trade =
     (let mm1 = mm\<lparr>completed_trades := completed_trades mm @ [trade]\<rparr>;
          pos = (case current_positions mm1 (ct_ticker trade) of
                   Some p \<Rightarrow> p
                 | None \<Rightarrow> \<lparr>pos_ticker = ct_ticker trade, position_volume = 0\<rparr>)
      in if ct_mm_action trade = ''buy'' then
           (Inr (), mm1\<lparr>current_positions := (current_positions mm1)
              (ct_ticker trade \<mapsto>
                 pos\<lparr>position_volume := position_volume pos + ct_trade_volume trade\<rparr>)\<rparr>)
         else if ct_mm_action trade = ''sell'' then
           (Inr (), mm1\<lparr>current_positions := (current_positions mm1)
              (ct_ticker trade \<mapsto>
                 pos\<lparr>position_volume := position_volume pos - ct_trade_volume trade\<rparr>)\<rparr>)
         else (Inl (ValueError (''Unknown mm_action: '' @ ct_mm_action trade)), mm1))"

definition update_ETF_position ::
  "('a::{zero,plus,minus}) MarketMaker \<Rightarrow> 'a ExecutedTrade
     \<Rightarrow> (error + unit) \<times> 'a MarketMaker" where
  "update_ETF_position mm executed_trade =
     (let pos = (case current_positions mm (ex_ticker executed_trade) of
                   Some p \<Rightarrow> p
                 | None \<Rightarrow> \<lparr>pos_ticker = ex_ticker executed_trade, position_volume = 0\<rparr>);
          etf_pos = \<lparr>etf_ticker = ex_ticker executed_trade,
                     etf_trade_volume = ex_trade_volume executed_trade,
                     etf_trade_price = ex_trade_price executed_trade,
                     etf_action = ex_action executed_trade,
                     etf_date = ex_date executed_trade\<rparr>
      in if ex_action executed_trade = ''buy'' then
           (Inr (), mm\<lparr>current_positions := (current_positions mm)
              (ex_ticker executed_trade \<mapsto>
                 pos\<lparr>position_volume :=
                       position_volume pos + ex_trade_volume executed_trade\<rparr>),
              ETF_positions := ETF_positions mm @ [etf_pos]\<rparr>)
         else if ex_action executed_trade = ''sell'' then
           (Inr (), mm\<lparr>current_positions := (current_positions mm)
              (ex_ticker executed_trade \<mapsto>
                 pos\<lparr>position_volume :=
                       position_volume pos - ex_trade_volume executed_trade\<rparr>),
              ETF_positions := ETF_positions mm @ [etf_pos]\<rparr>)
         else (Inl (ValueError (''Unknown action '' @ ex_action executed_trade)), mm))"

text \<open>
  A caller's sequence of ingestion calls: client fills go through \<^verbatim>\<open>add_trade\<close>, hedge
  fills through \<^verbatim>\<open>update_ETF_position\<close>; an exception ends the sequence.
\<close>

datatype 'a event = ClientFill "'a CompletedTrade" | HedgeFill "'a ExecutedTrade"

fun ingest ::
  "('a::{zero,plus,minus}) MarketMaker \<Rightarrow> 'a event \<Rightarrow> (error + unit) \<times> 'a MarketMaker" where
  "ingest mm (ClientFill t) = add_trade mm t"
| "ingest mm (HedgeFill t) = update_ETF_position mm t"

fun ingest_all ::
  "('a::{zero,plus,minus}) MarketMaker \<Rightarrow> 'a event list
     \<Rightarrow> (error + unit) \<times> 'a MarketMaker" where
  "ingest_all mm [] = (Inr (), mm)"
| "ingest_all mm (ev # evs) =
     (case ingest mm ev of
        (Inl e, mm') \<Rightarrow> (Inl e, mm')
      | (Inr _, mm') \<Rightarrow> ingest_all mm' evs)"






definition valid_action :: "string \<Rightarrow> bool" where
  "valid_action a = (a = ''buy'' \<or> a = ''sell'')"




subsection \<open>The price table\<close>

text \<open>
  A \<^verbatim>\<open>pd.DataFrame\<close> of prices: the row labels (\<^verbatim>\<open>index\<close>, dates) in the order the
  frame has them, the column labels (\<^verbatim>\<open>columns\<close>, tickers), and the cell at a date and a
  ticker. Cells outside \<open>index \<times> columns\<close> are never read. For the two PnL engines, row
  and column labels are taken to be unique, as those of a price table are, and \<open>loc\<close> is the
  lookup on such a table.
\<close>

record 'a DataFrame =
  index :: "date list"
  columns :: "string list"
  cells :: "date \<Rightarrow> string \<Rightarrow> 'a"

text \<open>\<^verbatim>\<open>prices.loc[date, ticker]\<close>: a missing label raises \<^verbatim>\<open>KeyError\<close>.\<close>

definition loc :: "'a DataFrame \<Rightarrow> date \<Rightarrow> string \<Rightarrow> error + 'a" where
  "loc prices d ticker =
     (if d \<in> set (index prices) \<and> ticker \<in> set (columns prices)
      then Inr (cells prices d ticker) else Inl KeyError)"

definition sort_index :: "'a DataFrame \<Rightarrow> 'a DataFrame" where
  "sort_index prices = prices\<lparr>index := sort (index prices)\<rparr>"

subsection \<open>trading/exchange.py\<close>

text \<open>The attribute \<^verbatim>\<open>self.prices\<close> of an Exchange.\<close>

record 'a Exchange =
  exchange_prices :: "'a DataFrame"

text \<open>
  The exchange is handed any table, so its lookup is modelled with what pandas does on a
  repeated label as well: \<^verbatim>\<open>self.prices.loc[date, ticker]\<close> raises \<^verbatim>\<open>KeyError\<close> when
  the date or the ticker is no label, is the cell when each is a label exactly once, and is a
  Series or a frame, not a number, when a label is repeated.
\<close>

datatype 'a loc_result = Scalar 'a | NonScalar

definition loc_any :: "'a DataFrame \<Rightarrow> date \<Rightarrow> string \<Rightarrow> error + 'a loc_result" where
  "loc_any prices d ticker =
     (if d \<notin> set (index prices) \<or> ticker \<notin> set (columns prices) then Inl KeyError
      else if count_list (index prices) d = 1 \<and> count_list (columns prices) ticker = 1
      then Inr (Scalar (cells prices d ticker))
      else Inr NonScalar)"

text \<open>\<^verbatim>\<open>float(...)\<close>: the number itself, and \<^verbatim>\<open>TypeError\<close> on a Series or a frame.\<close>

definition float_of :: "'a loc_result \<Rightarrow> error + 'a" where
  "float_of r = (case r of Scalar v \<Rightarrow> Inr v | NonScalar \<Rightarrow> Inl TypeError)"

text \<open>
  \<^verbatim>\<open>try: px = float(self.prices.loc[trade.date, trade.ticker])\<close>
  \<^verbatim>\<open>except KeyError: px = trade.ref_price\<close>; any other exception propagates.
\<close>

definition execute :: "'a Exchange \<Rightarrow> 'a ExchangeTrade \<Rightarrow> error + 'a ExecutedTrade" where
  "execute self trade =
     (case (case (case loc_any (exchange_prices self) (xo_date trade) (xo_ticker trade) of
                    Inl e \<Rightarrow> Inl e
                  | Inr r \<Rightarrow> float_of r) of
              Inr v \<Rightarrow> Inr v
            | Inl KeyError \<Rightarrow> Inr (xo_ref_price trade)
            | Inl e \<Rightarrow> Inl e) of
        Inl e \<Rightarrow> Inl e
      | Inr px \<Rightarrow>
          Inr \<lparr>ex_ticker = xo_ticker trade,
               ex_trade_volume = xo_trade_volume trade,
               ex_trade_price = px,
               ex_action = xo_action trade,
               ex_date = xo_date trade\<rparr>)"

subsection \<open>utils/pnl.py: transaction cost, grouping, inventories\<close>

definition transaction_cost :: "('a::{abs,times,plus}) \<Rightarrow> 'a \<Rightarrow> 'a \<Rightarrow> 'a \<Rightarrow> 'a" where
  "transaction_cost volume price fee_rate fee_per_unit =
     (let notional = abs volume * price
      in fee_rate * notional + fee_per_unit * abs volume)"

text \<open>The pairs \<^verbatim>\<open>("client", ct)\<close> and \<^verbatim>\<open>("hedge", ht)\<close>.\<close>

datatype 'a tagged_trade = Client "'a CompletedTrade" | Hedge "'a ETFPosition"

text \<open>
  \<^verbatim>\<open>trades_by_date = defaultdict(list)\<close>, filled by the two loops over
  \<^verbatim>\<open>mm.completed_trades\<close> and \<^verbatim>\<open>mm.ETF_positions\<close>: a function from dates to lists
  whose default is the empty list.
\<close>

definition trades_by_date :: "'a MarketMaker \<Rightarrow> date \<Rightarrow> 'a tagged_trade list" where
  "trades_by_date mm =
     fold (\<lambda>ht m. m(etf_date ht := m (etf_date ht) @ [Hedge ht])) (ETF_positions mm)
       (fold (\<lambda>ct m. m(ct_date ct := m (ct_date ct) @ [Client ct])) (completed_trades mm)
          (\<lambda>_. []))"

text \<open>
  An inventory is a \<^verbatim>\<open>defaultdict(float)\<close>; the loops over \<^verbatim>\<open>.items()\<close> visit the keys in
  insertion order, so it is an association list in that order. \<^verbatim>\<open>inventory[ticker] += v\<close>
  adds to the entry, or appends the entry \<^verbatim>\<open>0.0 + v\<close> for a new key.
\<close>

type_synonym 'a inventory = "(string \<times> 'a) list"

fun inv_add :: "('a::{zero,plus}) inventory \<Rightarrow> string \<Rightarrow> 'a \<Rightarrow> 'a inventory" where
  "inv_add [] ticker v = [(ticker, 0 + v)]"
| "inv_add ((k, q) # rest) ticker v =
     (if k = ticker then (k, q + v) # rest else (k, q) # inv_add rest ticker v)"

text \<open>\<^verbatim>\<open>futures_multipliers.get(ticker, 1.0)\<close>\<close>

definition multiplier :: "(string \<rightharpoonup> ('a::one)) \<Rightarrow> string \<Rightarrow> 'a" where
  "multiplier futures_multipliers ticker =
     (case futures_multipliers ticker of Some m \<Rightarrow> m | None \<Rightarrow> 1)"

subsection \<open>utils/pnl.py: the three steps of one date\<close>

text \<open>
  \<^verbatim>\<open>dP = prices.loc[current_date] - prices.loc[prev_date]\<close> is a Series over the columns;
  \<^verbatim>\<open>dP.get(ticker, 0.0)\<close> is its entry, or 0.0 for a ticker that is no column.
\<close>

definition dP_get :: "('a::{zero,minus}) DataFrame \<Rightarrow> date \<Rightarrow> date \<Rightarrow> string \<Rightarrow> 'a" where
  "dP_get prices current_date prev_date ticker =
     (if ticker \<in> set (columns prices)
      then cells prices current_date ticker - cells prices prev_date ticker else 0)"

text \<open>The loop \<^verbatim>\<open>for ticker, qty in inventory_main.items()\<close> of step 1, on \<open>inv_p\<close>.\<close>

fun inventory_move ::
  "('a::{zero,plus,minus,times}) DataFrame \<Rightarrow> date \<Rightarrow> date \<Rightarrow> 'a inventory \<Rightarrow> 'a \<Rightarrow> 'a" where
  "inventory_move prices cur prev [] inv_p = inv_p"
| "inventory_move prices cur prev ((ticker, qty) # rest) inv_p =
     inventory_move prices cur prev rest
       (if ticker \<in> set (columns prices)
        then inv_p + qty * dP_get prices cur prev ticker else inv_p)"

text \<open>The loop \<^verbatim>\<open>for ticker, qty in inventory_hedge.items()\<close> of step 1, on \<open>hed_p\<close>.\<close>

fun hedge_move ::
  "('a::{zero,one,plus,minus,times}) DataFrame \<Rightarrow> (string \<rightharpoonup> 'a) \<Rightarrow> date \<Rightarrow> date
     \<Rightarrow> 'a inventory \<Rightarrow> 'a \<Rightarrow> 'a" where
  "hedge_move prices fm cur prev [] hed_p = hed_p"
| "hedge_move prices fm cur prev ((ticker, qty) # rest) hed_p =
     hedge_move prices fm cur prev rest
       (if ticker \<in> set (columns prices)
        then (let mult = multiplier fm ticker
              in hed_p + qty * mult * dP_get prices cur prev ticker)
        else hed_p)"

text \<open>
  The state carried from date to date (\<^verbatim>\<open>inventory_main\<close>, \<^verbatim>\<open>inventory_hedge\<close>,
  \<^verbatim>\<open>cash\<close>) together with the three accumulators \<^verbatim>\<open>sp\<close>, \<^verbatim>\<open>cc\<close>, \<^verbatim>\<open>hc\<close> of step 2.
\<close>

record 'a book =
  inventory_main :: "'a inventory"
  inventory_hedge :: "'a inventory"
  cash :: 'a

record 'a trade_acc = "'a book" +
  sp :: 'a
  cc :: 'a
  hc :: 'a

text \<open>
  One iteration of \<^verbatim>\<open>for trade_type, tr in trades_by_date[current_date]\<close>. Any action
  other than 'buy' is taken as a sale (\<^verbatim>\<open>vol if ... == "buy" else -vol\<close>).
\<close>

fun trade_step ::
  "'a \<Rightarrow> 'a \<Rightarrow> 'a \<Rightarrow> 'a \<Rightarrow> ('a::{zero,plus,minus,uminus,times,abs}) tagged_trade
     \<Rightarrow> 'a trade_acc \<Rightarrow> 'a trade_acc" where
  "trade_step fee_rate_client fee_rate_hedge fee_per_unit_client fee_per_unit_hedge
       (Client tr) a =
     (let ticker = ct_ticker tr;
          price = ct_trade_price tr;
          vol = ct_trade_volume tr;
          signed_vol = (if ct_mm_action tr = ''buy'' then vol else - vol);
          mid = ct_ref_price tr;
          sp' = sp a + (mid - price) * signed_vol;
          cost = transaction_cost vol price fee_rate_client fee_per_unit_client;
          cc' = cc a + cost;
          notional = signed_vol * price;
          cash' = cash a - notional - cost
      in a\<lparr>inventory_main := inv_add (inventory_main a) ticker signed_vol,
            cash := cash', sp := sp', cc := cc'\<rparr>)"
| "trade_step fee_rate_client fee_rate_hedge fee_per_unit_client fee_per_unit_hedge
       (Hedge tr) a =
     (let ticker = etf_ticker tr;
          price = etf_trade_price tr;
          vol = etf_trade_volume tr;
          signed_vol = (if etf_action tr = ''buy'' then vol else - vol);
          cost = transaction_cost vol price fee_rate_hedge fee_per_unit_hedge;
          hc' = hc a + cost;
          notional = signed_vol * price;
          cash' = cash a - notional - cost
      in a\<lparr>inventory_hedge := inv_add (inventory_hedge a) ticker signed_vol,
            cash := cash', hc := hc'\<rparr>)"

text \<open>
  Step 3, the two loops on \<^verbatim>\<open>port_val\<close>. \<^verbatim>\<open>prices.loc[current_date, ticker]\<close> is the
  one lookup of the engine that can raise.
\<close>

fun mtm_main ::
  "('a::{plus,times}) DataFrame \<Rightarrow> date \<Rightarrow> 'a inventory \<Rightarrow> 'a \<Rightarrow> error + 'a" where
  "mtm_main prices cur [] port_val = Inr port_val"
| "mtm_main prices cur ((ticker, qty) # rest) port_val =
     (if ticker \<in> set (columns prices)
      then (case loc prices cur ticker of
              Inl e \<Rightarrow> Inl e
            | Inr px \<Rightarrow> mtm_main prices cur rest (port_val + qty * px))
      else mtm_main prices cur rest port_val)"

fun mtm_hedge ::
  "('a::{one,plus,times}) DataFrame \<Rightarrow> (string \<rightharpoonup> 'a) \<Rightarrow> date \<Rightarrow> 'a inventory \<Rightarrow> 'a
     \<Rightarrow> error + 'a" where
  "mtm_hedge prices fm cur [] port_val = Inr port_val"
| "mtm_hedge prices fm cur ((ticker, qty) # rest) port_val =
     (if ticker \<in> set (columns prices)
      then (let mult = multiplier fm ticker
            in case loc prices cur ticker of
                 Inl e \<Rightarrow> Inl e
               | Inr px \<Rightarrow> mtm_hedge prices fm cur rest (port_val + qty * mult * px))
      else mtm_hedge prices fm cur rest port_val)"

definition mark_to_market ::
  "('a::{zero,one,plus,times}) DataFrame \<Rightarrow> (string \<rightharpoonup> 'a) \<Rightarrow> date \<Rightarrow> 'a inventory
     \<Rightarrow> 'a inventory \<Rightarrow> error + 'a" where
  "mark_to_market prices fm cur inv_main inv_hedge =
     (case mtm_main prices cur inv_main 0 of
        Inl e \<Rightarrow> Inl e
      | Inr port_val \<Rightarrow> mtm_hedge prices fm cur inv_hedge port_val)"

subsection \<open>utils/pnl.py: \<^verbatim>\<open>compute_pnl_with_attribution\<close>\<close>

text \<open>The entries written at one date into the six Series of the loop.\<close>

record 'a flows =
  f_spread_pnl :: 'a
  f_inventory_pnl :: 'a
  f_hedge_pnl :: 'a
  f_client_cost :: 'a
  f_hedge_cost :: 'a
  f_equity :: 'a

text \<open>
  The body of \<^verbatim>\<open>for current_date in dates\<close>: from \<open>prev_date\<close> and the book before the
  date to the entries of the date and the book after it. The Series are initialised to 0.0,
  which is what \<open>inventory_pnl\<close> and \<open>hedge_pnl\<close> keep at the first date.
\<close>

definition date_step ::
  "('a::{zero,one,plus,minus,uminus,times,abs}) MarketMaker \<Rightarrow> 'a DataFrame
     \<Rightarrow> 'a \<Rightarrow> 'a \<Rightarrow> 'a \<Rightarrow> 'a \<Rightarrow> (string \<rightharpoonup> 'a)
     \<Rightarrow> date option \<Rightarrow> 'a book \<Rightarrow> date \<Rightarrow> error + 'a flows \<times> 'a book" where
  "date_step mm prices fee_rate_client fee_rate_hedge fee_per_unit_client fee_per_unit_hedge
       fm prev_date b current_date =
     (let (inv_p, hed_p) =
            (case prev_date of
               None \<Rightarrow> (0, 0)
             | Some prev \<Rightarrow>
                 (inventory_move prices current_date prev (inventory_main b) 0,
                  hedge_move prices fm current_date prev (inventory_hedge b) 0));
          a = fold (trade_step fee_rate_client fee_rate_hedge
                      fee_per_unit_client fee_per_unit_hedge)
                (trades_by_date mm current_date)
                (book.extend b \<lparr>sp = 0, cc = 0, hc = 0\<rparr>);
          b' = book.truncate a
      in case mark_to_market prices fm current_date (inventory_main b') (inventory_hedge b') of
           Inl e \<Rightarrow> Inl e
         | Inr port_val \<Rightarrow>
             Inr (\<lparr>f_spread_pnl = sp a, f_inventory_pnl = inv_p, f_hedge_pnl = hed_p,
                   f_client_cost = cc a, f_hedge_cost = hc a,
                   f_equity = cash b' + port_val\<rparr>, b'))"

text \<open>
  The loop over the dates. Beside the entries of each date it keeps the book after that
  date, which the code holds in its local variables and does not return; statements about
  "cash after the date" refer to it.
\<close>

fun replay ::
  "('a::{zero,one,plus,minus,uminus,times,abs}) MarketMaker \<Rightarrow> 'a DataFrame
     \<Rightarrow> 'a \<Rightarrow> 'a \<Rightarrow> 'a \<Rightarrow> 'a \<Rightarrow> (string \<rightharpoonup> 'a)
     \<Rightarrow> date option \<Rightarrow> 'a book \<Rightarrow> date list \<Rightarrow> error + (date \<times> 'a flows \<times> 'a book) list" where
  "replay mm prices frc frh fpc fph fm prev_date b [] = Inr []"
| "replay mm prices frc frh fpc fph fm prev_date b (current_date # dates) =
     (case date_step mm prices frc frh fpc fph fm prev_date b current_date of
        Inl e \<Rightarrow> Inl e
      | Inr (fl, b') \<Rightarrow>
          (case replay mm prices frc frh fpc fph fm (Some current_date) b' dates of
             Inl e \<Rightarrow> Inl e
           | Inr rows \<Rightarrow> Inr ((current_date, fl, b') # rows)))"

text \<open>\<^verbatim>\<open>Series.cumsum()\<close>: the running sums, the first being the first entry itself.\<close>

fun cumsum_from :: "('a::plus) \<Rightarrow> 'a list \<Rightarrow> 'a list" where
  "cumsum_from acc [] = []"
| "cumsum_from acc (x # xs) = (acc + x) # cumsum_from (acc + x) xs"

fun cumsum :: "('a::plus) list \<Rightarrow> 'a list" where
  "cumsum [] = []"
| "cumsum (x # xs) = x # cumsum_from x xs"

text \<open>The returned frame \<^verbatim>\<open>pnl_df\<close>, column by column, over the sorted dates.\<close>

record 'a pnl_df =
  df_index :: "date list"
  spread_pnl :: "'a list"
  inventory_pnl :: "'a list"
  hedge_pnl :: "'a list"
  client_cost :: "'a list"
  hedge_cost :: "'a list"
  total_cost :: "'a list"
  total_pnl :: "'a list"
  equity :: "'a list"
  cum_spread_pnl :: "'a list"
  cum_inventory_pnl :: "'a list"
  cum_hedge_pnl :: "'a list"
  cum_total_cost :: "'a list"
  cum_total_pnl :: "'a list"

text \<open>The initial book: two empty inventories and \<^verbatim>\<open>cash = 0.0\<close>.\<close>

definition empty_book :: "('a::zero) book" where
  "empty_book = \<lparr>inventory_main = [], inventory_hedge = [], cash = 0\<rparr>"

definition pack ::
  "(date \<times> ('a::{plus,minus}) flows \<times> 'a book) list \<Rightarrow> 'a pnl_df" where
  "pack rows =
     (let fs = map (fst \<circ> snd) rows;
          spread = map f_spread_pnl fs;
          inventory = map f_inventory_pnl fs;
          hedge = map f_hedge_pnl fs;
          ccost = map f_client_cost fs;
          hcost = map f_hedge_cost fs;
          tcost = map2 (+) ccost hcost;
          tpnl = map2 (-) (map2 (+) (map2 (+) spread inventory) hedge) tcost
      in \<lparr>df_index = map fst rows,
          spread_pnl = spread, inventory_pnl = inventory, hedge_pnl = hedge,
          client_cost = ccost, hedge_cost = hcost,
          total_cost = tcost, total_pnl = tpnl,
          equity = map f_equity fs,
          cum_spread_pnl = cumsum spread,
          cum_inventory_pnl = cumsum inventory,
          cum_hedge_pnl = cumsum hedge,
          cum_total_cost = cumsum tcost,
          cum_total_pnl = cumsum tpnl\<rparr>)"

text \<open>\<^verbatim>\<open>futures_multipliers = futures_multipliers or {}\<close>\<close>

definition or_empty :: "(string \<rightharpoonup> 'a) option \<Rightarrow> (string \<rightharpoonup> 'a)" where
  "or_empty futures_multipliers =
     (case futures_multipliers of None \<Rightarrow> Map.empty | Some m \<Rightarrow> m)"

definition attribution_rows ::
  "('a::{zero,one,plus,minus,uminus,times,abs}) MarketMaker \<Rightarrow> 'a DataFrame
     \<Rightarrow> 'a \<Rightarrow> 'a \<Rightarrow> 'a \<Rightarrow> 'a \<Rightarrow> (string \<rightharpoonup> 'a) option
     \<Rightarrow> error + (date \<times> 'a flows \<times> 'a book) list" where
  "attribution_rows mm prices0 fee_rate_client fee_rate_hedge fee_per_unit_client
       fee_per_unit_hedge futures_multipliers =
     (let prices = sort_index prices0;
          dates = index prices;
          fm = or_empty futures_multipliers
      in replay mm prices fee_rate_client fee_rate_hedge fee_per_unit_client
           fee_per_unit_hedge fm None empty_book dates)"

definition compute_pnl_with_attribution ::
  "('a::{zero,one,plus,minus,uminus,times,abs}) MarketMaker \<Rightarrow> 'a DataFrame
     \<Rightarrow> 'a \<Rightarrow> 'a \<Rightarrow> 'a \<Rightarrow> 'a \<Rightarrow> (string \<rightharpoonup> 'a) option \<Rightarrow> error + 'a pnl_df" where
  "compute_pnl_with_attribution mm prices0 fee_rate_client fee_rate_hedge fee_per_unit_client
       fee_per_unit_hedge futures_multipliers =
     (case attribution_rows mm prices0 fee_rate_client fee_rate_hedge fee_per_unit_client
             fee_per_unit_hedge futures_multipliers of
        Inl e \<Rightarrow> Inl e
      | Inr rows \<Rightarrow> Inr (pack rows))"

subsection \<open>utils/pnl.py: \<^verbatim>\<open>compute_simple_pnl\<close>\<close>





subsection \<open>Notions used to state and prove the properties\<close>

text \<open>
  The value the two loops of step 3 compute when no lookup raises: the same loops with the
  cell read directly.
\<close>

fun main_value :: "('a::{plus,times}) DataFrame \<Rightarrow> date \<Rightarrow> 'a inventory \<Rightarrow> 'a \<Rightarrow> 'a" where
  "main_value prices cur [] port_val = port_val"
| "main_value prices cur ((ticker, qty) # rest) port_val =
     main_value prices cur rest
       (if ticker \<in> set (columns prices)
        then port_val + qty * cells prices cur ticker else port_val)"

fun hedge_value ::
  "('a::{one,plus,times}) DataFrame \<Rightarrow> (string \<rightharpoonup> 'a) \<Rightarrow> date \<Rightarrow> 'a inventory \<Rightarrow> 'a \<Rightarrow> 'a" where
  "hedge_value prices fm cur [] port_val = port_val"
| "hedge_value prices fm cur ((ticker, qty) # rest) port_val =
     hedge_value prices fm cur rest
       (if ticker \<in> set (columns prices)
        then port_val + qty * multiplier fm ticker * cells prices cur ticker else port_val)"

text \<open>An inventory without the entries of instruments that are no column of the table.\<close>

definition present :: "'a DataFrame \<Rightarrow> 'a inventory \<Rightarrow> 'a inventory" where
  "present prices ivt = filter (\<lambda>(ticker, qty). ticker \<in> set (columns prices)) ivt"

definition present_book :: "'a DataFrame \<Rightarrow> 'a book \<Rightarrow> 'a book" where
  "present_book prices b =
     b\<lparr>inventory_main := present prices (inventory_main b),
       inventory_hedge := present prices (inventory_hedge b)\<rparr>"

text \<open>Two accumulators that differ at most in entries of instruments that are no column.\<close>

definition same_present :: "'a DataFrame \<Rightarrow> 'a trade_acc \<Rightarrow> 'a trade_acc \<Rightarrow> bool" where
  "same_present prices a a2 =
     (cash a = cash a2 \<and> sp a = sp a2 \<and> cc a = cc a2 \<and> hc a = hc a2 \<and>
      present prices (inventory_main a) = present prices (inventory_main a2) \<and>
      present prices (inventory_hedge a) = present prices (inventory_hedge a2))"

text \<open>The accumulator after the trade loop of a date, started from the book before it.\<close>

definition after_trades ::
  "('a::{zero,plus,minus,uminus,times,abs}) MarketMaker \<Rightarrow> 'a \<Rightarrow> 'a \<Rightarrow> 'a \<Rightarrow> 'a
     \<Rightarrow> 'a book \<Rightarrow> date \<Rightarrow> 'a trade_acc" where
  "after_trades mm frc frh fpc fph b current_date =
     fold (trade_step frc frh fpc fph) (trades_by_date mm current_date)
       (book.extend b \<lparr>sp = 0, cc = 0, hc = 0\<rparr>)"

text \<open>The price-move entries of a date, 0 at the first date.\<close>

definition move_main ::
  "('a::{zero,plus,minus,times}) DataFrame \<Rightarrow> date option \<Rightarrow> date \<Rightarrow> 'a inventory \<Rightarrow> 'a" where
  "move_main prices prev_date cur ivt =
     (case prev_date of None \<Rightarrow> 0 | Some prev \<Rightarrow> inventory_move prices cur prev ivt 0)"

definition move_hedge ::
  "('a::{zero,one,plus,minus,times}) DataFrame \<Rightarrow> (string \<rightharpoonup> 'a) \<Rightarrow> date option \<Rightarrow> date
     \<Rightarrow> 'a inventory \<Rightarrow> 'a" where
  "move_hedge prices fm prev_date cur ivt =
     (case prev_date of None \<Rightarrow> 0 | Some prev \<Rightarrow> hedge_move prices fm cur prev ivt 0)"

subsection \<open>Exact arithmetic: values of a book\<close>











subsection \<open>Exact arithmetic: the merged inventory of the simple engine\<close>






subsection \<open>The floats of the code: IEEE 754 binary64\<close>

text \<open>
  Python's \<^verbatim>\<open>float\<close>: the finite doubles, the two infinities and NaN. A finite double is
  \<open>m * 2^e\<close> with \<open>|m| < 2^53\<close> and \<open>-1074 \<le> e \<le> 971\<close>. Every operation computes the exact
  result and rounds it to the nearest double, ties to the even mantissa; a rounded result of
  magnitude \<open>2^1024\<close> or more is an infinity. The two zeros are one value (they compare equal
  and nothing here divides by them), and NaN is a single value.
\<close>

definition pow2 :: "int \<Rightarrow> real" where
  "pow2 e = (if 0 \<le> e then 2 ^ nat e else 1 / 2 ^ nat (- e))"

definition is_double :: "real \<Rightarrow> bool" where
  "is_double x =
     (\<exists>m e. x = real_of_int m * pow2 e \<and> \<bar>m\<bar> < 2 ^ 53 \<and> - 1074 \<le> e \<and> e \<le> 971)"

text \<open>Rounding to the nearest integer, ties to even.\<close>

definition rte :: "real \<Rightarrow> int" where
  "rte y =
     (let f = \<lfloor>y\<rfloor>
      in if y - real_of_int f < 1 / 2 then f
         else if 1 / 2 < y - real_of_int f then f + 1
         else if even f then f else f + 1)"

text \<open>
  The exponent of the unit in the last place of \<open>x\<close>: 52 below the exponent of \<open>x\<close>, and
  \<open>-1074\<close> in the subnormal range.
\<close>

definition ulp_exp :: "real \<Rightarrow> int" where
  "ulp_exp x = max (\<lfloor>log 2 \<bar>x\<bar>\<rfloor> - 52) (- 1074)"

definition rnd :: "real \<Rightarrow> real" where
  "rnd x =
     (if x = 0 then 0
      else real_of_int (rte (x / pow2 (ulp_exp x))) * pow2 (ulp_exp x))"

datatype f64 = Fin real | PInf | NInf | NaN

text \<open>The overflow threshold \<open>2^1024\<close>.\<close>

definition huge :: real where
  "huge = 2 ^ 1024"

definition to_f64 :: "real \<Rightarrow> f64" where
  "to_f64 x =
     (let r = rnd x
      in if huge \<le> r then PInf else if r \<le> - huge then NInf else Fin r)"

fun f64_neg :: "f64 \<Rightarrow> f64" where
  "f64_neg (Fin x) = Fin (- x)"
| "f64_neg PInf = NInf"
| "f64_neg NInf = PInf"
| "f64_neg NaN = NaN"

fun f64_abs :: "f64 \<Rightarrow> f64" where
  "f64_abs (Fin x) = Fin \<bar>x\<bar>"
| "f64_abs PInf = PInf"
| "f64_abs NInf = PInf"
| "f64_abs NaN = NaN"

fun f64_add :: "f64 \<Rightarrow> f64 \<Rightarrow> f64" where
  "f64_add (Fin x) (Fin y) = to_f64 (x + y)"
| "f64_add NaN b = NaN"
| "f64_add a NaN = NaN"
| "f64_add PInf NInf = NaN"
| "f64_add NInf PInf = NaN"
| "f64_add PInf b = PInf"
| "f64_add a PInf = PInf"
| "f64_add NInf b = NInf"
| "f64_add a NInf = NInf"

text \<open>The sign of an infinity times a finite or infinite factor; \<open>inf * 0\<close> is NaN.\<close>

fun f64_sign :: "f64 \<Rightarrow> int" where
  "f64_sign (Fin x) = (if 0 < x then 1 else if x < 0 then - 1 else 0)"
| "f64_sign PInf = 1"
| "f64_sign NInf = - 1"
| "f64_sign NaN = 0"

fun f64_mul :: "f64 \<Rightarrow> f64 \<Rightarrow> f64" where
  "f64_mul (Fin x) (Fin y) = to_f64 (x * y)"
| "f64_mul NaN b = NaN"
| "f64_mul a NaN = NaN"
| "f64_mul a b =
     (if f64_sign a * f64_sign b = 0 then NaN
      else if 0 < f64_sign a * f64_sign b then PInf else NInf)"

instantiation f64 :: "{zero,one,plus,minus,uminus,times,abs}"
begin
definition zero_f64_def: "0 = Fin 0"
definition one_f64_def: "1 = Fin 1"
definition plus_f64_def: "a + b = f64_add a b"
definition uminus_f64_def: "- a = f64_neg a"
definition minus_f64_def: "a - b = f64_add a (f64_neg b)"
definition times_f64_def: "a * b = f64_mul a b"
definition abs_f64_def: "abs a = f64_abs a"
instance ..
end

subsection \<open>utils/quotes.py\<close>

text \<open>
  The quote functions compute on floats, with \<^verbatim>\<open>np.tanh\<close>. The order on floats: NaN
  compares false with everything, the infinities are below and above every number.
\<close>

fun f64_le :: "f64 \<Rightarrow> f64 \<Rightarrow> bool" where
  "f64_le (Fin x) (Fin y) = (x \<le> y)"
| "f64_le NaN b = False"
| "f64_le a NaN = False"
| "f64_le NInf b = True"
| "f64_le a PInf = True"
| "f64_le a b = False"

fun f64_less :: "f64 \<Rightarrow> f64 \<Rightarrow> bool" where
  "f64_less (Fin x) (Fin y) = (x < y)"
| "f64_less NaN b = False"
| "f64_less a NaN = False"
| "f64_less NInf NInf = False"
| "f64_less PInf PInf = False"
| "f64_less NInf b = True"
| "f64_less a PInf = True"
| "f64_less a b = False"

text \<open>
  \<^verbatim>\<open>a / b\<close> on Python floats raises \<^verbatim>\<open>ZeroDivisionError\<close> when \<open>b\<close> is zero, whatever
  \<open>a\<close> is; otherwise it is the IEEE quotient.
\<close>

fun f64_div :: "f64 \<Rightarrow> f64 \<Rightarrow> error + f64" where
  "f64_div a (Fin y) =
     (if y = 0 then Inl ZeroDivisionError
      else Inr (case a of
                  Fin x \<Rightarrow> to_f64 (x / y)
                | PInf \<Rightarrow> (if 0 < y then PInf else NInf)
                | NInf \<Rightarrow> (if 0 < y then NInf else PInf)
                | NaN \<Rightarrow> NaN))"
| "f64_div a NaN = Inr NaN"
| "f64_div a b = Inr (case a of Fin x \<Rightarrow> Fin 0 | PInf \<Rightarrow> NaN | NInf \<Rightarrow> NaN | NaN \<Rightarrow> NaN)"

text \<open>\<^verbatim>\<open>spread/2\<close>: the divisor is the literal 2, so this division cannot raise.\<close>

fun f64_halve :: "f64 \<Rightarrow> f64" where
  "f64_halve (Fin x) = to_f64 (x / 2)"
| "f64_halve PInf = PInf"
| "f64_halve NInf = NInf"
| "f64_halve NaN = NaN"

text \<open>
  \<^verbatim>\<open>np.tanh\<close>, taken as the hyperbolic tangent rounded to the nearest double; it is 1 and
  -1 at the infinities.
\<close>

fun tanh64 :: "f64 \<Rightarrow> f64" where
  "tanh64 (Fin x) = to_f64 (tanh x)"
| "tanh64 PInf = Fin 1"
| "tanh64 NInf = Fin (- 1)"
| "tanh64 NaN = NaN"

definition fixed_quote :: "f64 \<Rightarrow> f64 \<Rightarrow> f64 \<times> f64" where
  "fixed_quote current_price base_spread =
     (let spread = current_price * base_spread;
          bid_price = current_price - f64_halve spread;
          offer_price = current_price + f64_halve spread
      in (bid_price, offer_price))"

text \<open>
  The local variable \<^verbatim>\<open>skew\<close> of \<^verbatim>\<open>skewed_quote\<close>, as a function of the arguments it is
  computed from: \<^verbatim>\<open>raw_skew = sensitivity * inventory / inventory_ideal_size\<close> and
  \<^verbatim>\<open>skew = current_price * max_skew * np.tanh(raw_skew)\<close>.
\<close>

definition quote_skew :: "f64 \<Rightarrow> f64 \<Rightarrow> f64 \<Rightarrow> f64 \<Rightarrow> f64 \<Rightarrow> error + f64" where
  "quote_skew current_price inventory inventory_ideal_size sensitivity max_skew =
     (case f64_div (sensitivity * inventory) inventory_ideal_size of
        Inl e \<Rightarrow> Inl e
      | Inr raw_skew \<Rightarrow> Inr (current_price * max_skew * tanh64 raw_skew))"

definition skewed_quote ::
  "f64 \<Rightarrow> f64 \<Rightarrow> f64 \<Rightarrow> f64 \<Rightarrow> f64 \<Rightarrow> f64 \<Rightarrow> error + f64 \<times> f64" where
  "skewed_quote current_price base_spread inventory inventory_ideal_size sensitivity max_skew =
     (case quote_skew current_price inventory inventory_ideal_size sensitivity max_skew of
        Inl e \<Rightarrow> Inl e
      | Inr skew \<Rightarrow>
          let spread = current_price * base_spread;
              bid_price = current_price + skew - f64_halve spread;
              offer_price = current_price + skew + f64_halve spread
          in Inr (bid_price, offer_price))"

subsection \<open>Concrete inputs\<close>

definition example_events :: "real event list" where
  "example_events =
     [ClientFill \<lparr>ct_ticker = ''X'', ct_trade_volume = 10, ct_trade_price = 99,
                  ct_mm_action = ''buy'', ct_ref_price = 100, ct_bid_price = 99,
                  ct_offer_price = 101, ct_date = 1\<rparr>,
      HedgeFill \<lparr>ex_ticker = ''X'', ex_trade_volume = 4, ex_trade_price = 100,
                 ex_action = ''sell'', ex_date = 1\<rparr>,
      ClientFill \<lparr>ct_ticker = ''Y'', ct_trade_volume = 3, ct_trade_price = 51,
                  ct_mm_action = ''sell'', ct_ref_price = 50, ct_bid_price = 49,
                  ct_offer_price = 51, ct_date = 2\<rparr>]"

definition hold_trade :: "real CompletedTrade" where
  "hold_trade = \<lparr>ct_ticker = ''X'', ct_trade_volume = 5, ct_trade_price = 100,
                  ct_mm_action = ''hold'', ct_ref_price = 100, ct_bid_price = 99,
                  ct_offer_price = 101, ct_date = 1\<rparr>"

text \<open>
  The scenario of the specification: instrument X, prices 100 and 105 at the dates 1 and 2
  (given out of order), a client buy of 10 at 99 against a reference of 100 and a hedge sale
  of 10 at 100, both at date 1.
\<close>

definition example_mm :: "real MarketMaker" where
  "example_mm =
     \<lparr>quoted_trades = [],
      completed_trades =
        [\<lparr>ct_ticker = ''X'', ct_trade_volume = 10, ct_trade_price = 99,
          ct_mm_action = ''buy'', ct_ref_price = 100, ct_bid_price = 99,
          ct_offer_price = 101, ct_date = 1\<rparr>],
      current_positions = Map.empty,
      ETF_positions =
        [\<lparr>etf_ticker = ''X'', etf_trade_volume = 10, etf_trade_price = 100,
          etf_action = ''sell'', etf_date = 1\<rparr>]\<rparr>"

definition example_prices :: "real DataFrame" where
  "example_prices =
     \<lparr>index = [2, 1], columns = [''X''],
      cells = (\<lambda>d ticker. if d = 1 then 100 else 105)\<rparr>"


text \<open>An order on a table that has its date once, and on one that has it twice.\<close>

definition example_order :: "real ExchangeTrade" where
  "example_order =
     \<lparr>xo_ticker = ''X'', xo_trade_volume = 10, xo_ref_price = 101, xo_action = ''sell'',
      xo_date = 1\<rparr>"

definition repeated_date_prices :: "real DataFrame" where
  "repeated_date_prices =
     \<lparr>index = [1, 1], columns = [''X''], cells = (\<lambda>d ticker. 100)\<rparr>"








section \<open>The ledger: positions and rejected trades\<close>








text \<open>
  Claim C5. For every ledger state and every CompletedTrade whose \<^verbatim>\<open>mm_action\<close> is
  neither 'buy' nor 'sell', \<^verbatim>\<open>add_trade\<close> raises (the code's error is a
  \<^verbatim>\<open>ValueError\<close> carrying the action) and the position map after the call is the position
  map before it. Holds for any number type.
\<close>

theorem add_trade_invalid_action_raises:
  assumes "\<not> valid_action (ct_mm_action trade)"
  shows "fst (add_trade mm trade) =
           Inl (ValueError (''Unknown mm_action: '' @ ct_mm_action trade)) \<and>
         current_positions (snd (add_trade mm trade)) = current_positions mm"
  using assms by (simp add: add_trade_def valid_action_def Let_def)

theorem add_trade_invalid_action_raises_witness:
  "\<not> valid_action (ct_mm_action hold_trade) \<and>
   fst (add_trade (snd (ingest_all (MarketMaker_init None None) example_events)) hold_trade) =
     Inl (ValueError ''Unknown mm_action: hold'') \<and>
   current_positions
     (snd (add_trade (snd (ingest_all (MarketMaker_init None None) example_events)) hold_trade)) =
   current_positions (snd (ingest_all (MarketMaker_init None None) example_events))"
proof -
  have h: "\<not> valid_action (ct_mm_action hold_trade)"
    by (simp add: hold_trade_def valid_action_def)
  have a: "ct_mm_action hold_trade = ''hold''" by (simp add: hold_trade_def)
  show ?thesis
    using add_trade_invalid_action_raises[OF h,
        of "snd (ingest_all (MarketMaker_init None None) example_events)"] h a
    by simp
qed

text \<open>
  Claim C10. For every ledger state and every CompletedTrade whose \<^verbatim>\<open>mm_action\<close> is
  neither 'buy' nor 'sell', \<^verbatim>\<open>add_trade\<close> raises after it has appended the trade to
  \<^verbatim>\<open>completed_trades\<close>: on the error path the log is the old log followed by the rejected
  trade, the position map is unchanged, and the ledger is not the ledger it was.
\<close>

theorem add_trade_logs_rejected_trade:
  assumes "\<not> valid_action (ct_mm_action trade)"
  shows "isl (fst (add_trade mm trade)) \<and>
         completed_trades (snd (add_trade mm trade)) = completed_trades mm @ [trade] \<and>
         current_positions (snd (add_trade mm trade)) = current_positions mm \<and>
         snd (add_trade mm trade) \<noteq> mm"
proof -
  have "completed_trades (snd (add_trade mm trade)) = completed_trades mm @ [trade]"
    using assms by (simp add: add_trade_def valid_action_def Let_def)
  moreover from this have "snd (add_trade mm trade) \<noteq> mm"
    by auto
  ultimately show ?thesis
    using assms by (simp add: add_trade_def valid_action_def Let_def)
qed

theorem add_trade_logs_rejected_trade_witness:
  "\<not> valid_action (ct_mm_action hold_trade) \<and>
   isl (fst (add_trade (MarketMaker_init None None) hold_trade)) \<and>
   completed_trades (snd (add_trade (MarketMaker_init None None) hold_trade)) = [hold_trade] \<and>
   current_positions (snd (add_trade (MarketMaker_init None None) hold_trade)) = Map.empty"
proof -
  have h: "\<not> valid_action (ct_mm_action hold_trade)"
    by (simp add: hold_trade_def valid_action_def)
  show ?thesis
    using add_trade_logs_rejected_trade[OF h, of "MarketMaker_init None None"] h
    by (simp add: MarketMaker_init_def)
qed
section \<open>The attribution engine: totality and the rows\<close>



lemma mtm_main_value:
  "cur \<in> set (index prices) \<Longrightarrow>
     mtm_main prices cur ivt port_val = Inr (main_value prices cur ivt port_val)"
  by (induction ivt arbitrary: port_val) (auto simp: loc_def)

lemma mtm_hedge_value:
  "cur \<in> set (index prices) \<Longrightarrow>
     mtm_hedge prices fm cur ivt port_val = Inr (hedge_value prices fm cur ivt port_val)"
  by (induction ivt arbitrary: port_val) (auto simp: loc_def)

lemma mark_to_market_value:
  "cur \<in> set (index prices) \<Longrightarrow>
     mark_to_market prices fm cur inv_main inv_hedge =
       Inr (hedge_value prices fm cur inv_hedge (main_value prices cur inv_main 0))"
  by (simp add: mark_to_market_def mtm_main_value mtm_hedge_value)

lemma date_step_returns:
  "current_date \<in> set (index prices) \<Longrightarrow>
     \<exists>fl b'. date_step mm prices frc frh fpc fph fm prev_date b current_date = Inr (fl, b')"
  by (simp add: date_step_def Let_def mark_to_market_value split: prod.splits)

lemma replay_returns:
  "set dates \<subseteq> set (index prices) \<Longrightarrow>
     \<exists>rows. replay mm prices frc frh fpc fph fm prev_date b dates = Inr rows \<and>
            map fst rows = dates"
proof (induction dates arbitrary: prev_date b)
  case Nil
  then show ?case by simp
next
  case (Cons d dates)
  then have d: "d \<in> set (index prices)" and rest: "set dates \<subseteq> set (index prices)"
    by simp_all
  obtain fl b' where st: "date_step mm prices frc frh fpc fph fm prev_date b d = Inr (fl, b')"
    using date_step_returns[OF d] by blast
  obtain rows where r: "replay mm prices frc frh fpc fph fm (Some d) b' dates = Inr rows"
     and ix: "map fst rows = dates"
    using Cons.IH[OF rest] by blast
  show ?case using st r ix by simp
qed

lemma index_sort_index: "set (index (sort_index prices)) = set (index prices)"
  by (simp add: sort_index_def)

lemma columns_sort_index: "columns (sort_index prices) = columns prices"
  by (simp add: sort_index_def)

lemma cells_sort_index: "cells (sort_index prices) = cells prices"
  by (simp add: sort_index_def)

lemma attribution_rows_returns:
  "\<exists>rows. attribution_rows mm prices frc frh fpc fph fmo = Inr rows \<and>
          map fst rows = sort (index prices)"
proof -
  have "set (index (sort_index prices)) \<subseteq> set (index (sort_index prices))" by simp
  from replay_returns[OF this] show ?thesis
    by (simp add: attribution_rows_def Let_def sort_index_def)
qed

lemma nth_map2:
  "i < length xs \<Longrightarrow> i < length ys \<Longrightarrow> map2 f xs ys ! i = f (xs ! i) (ys ! i)"
  by simp

lemma pack_lengths:
  "df_index (pack rows) = map fst rows"
  "length (spread_pnl (pack rows)) = length rows"
  "length (inventory_pnl (pack rows)) = length rows"
  "length (hedge_pnl (pack rows)) = length rows"
  "length (client_cost (pack rows)) = length rows"
  "length (hedge_cost (pack rows)) = length rows"
  "length (total_cost (pack rows)) = length rows"
  "length (total_pnl (pack rows)) = length rows"
  "length (equity (pack rows)) = length rows"
  by (simp_all add: pack_def Let_def)

lemma pack_nth:
  assumes "i < length rows"
  shows "spread_pnl (pack rows) ! i = f_spread_pnl (fst (snd (rows ! i)))"
    and "inventory_pnl (pack rows) ! i = f_inventory_pnl (fst (snd (rows ! i)))"
    and "hedge_pnl (pack rows) ! i = f_hedge_pnl (fst (snd (rows ! i)))"
    and "client_cost (pack rows) ! i = f_client_cost (fst (snd (rows ! i)))"
    and "hedge_cost (pack rows) ! i = f_hedge_cost (fst (snd (rows ! i)))"
    and "equity (pack rows) ! i = f_equity (fst (snd (rows ! i)))"
    and "total_cost (pack rows) ! i =
           f_client_cost (fst (snd (rows ! i))) + f_hedge_cost (fst (snd (rows ! i)))"
    and "total_pnl (pack rows) ! i =
           f_spread_pnl (fst (snd (rows ! i))) + f_inventory_pnl (fst (snd (rows ! i)))
             + f_hedge_pnl (fst (snd (rows ! i)))
             - (f_client_cost (fst (snd (rows ! i))) + f_hedge_cost (fst (snd (rows ! i))))"
  using assms by (simp_all add: pack_def Let_def)

text \<open>
  Claim C1. For every ledger, every price table, all fee parameters and multipliers,
  \<^verbatim>\<open>compute_pnl_with_attribution\<close> returns a frame over the sorted dates in which, at every
  row, \<open>total_pnl\<close> is \<open>spread_pnl + inventory_pnl + hedge_pnl - (client_cost +
  hedge_cost)\<close>. The column is computed by that very expression, so this holds for any number
  type, with no algebraic law used.
\<close>

theorem total_pnl_by_construction:
  "\<exists>df. compute_pnl_with_attribution mm prices frc frh fpc fph fmo = Inr df \<and>
        df_index df = sort (index prices) \<and>
        length (total_pnl df) = length (df_index df) \<and>
        (\<forall>i < length (df_index df).
           total_pnl df ! i =
             spread_pnl df ! i + inventory_pnl df ! i + hedge_pnl df ! i
               - (client_cost df ! i + hedge_cost df ! i))"
proof -
  obtain rows where r: "attribution_rows mm prices frc frh fpc fph fmo = Inr rows"
    and ix: "map fst rows = sort (index prices)"
    using attribution_rows_returns by blast
  have c: "compute_pnl_with_attribution mm prices frc frh fpc fph fmo = Inr (pack rows)"
    by (simp add: compute_pnl_with_attribution_def r)
  have "total_pnl (pack rows) ! i =
             spread_pnl (pack rows) ! i + inventory_pnl (pack rows) ! i + hedge_pnl (pack rows) ! i
               - (client_cost (pack rows) ! i + hedge_cost (pack rows) ! i)"
    if "i < length rows" for i
    using that by (simp add: pack_nth)
  moreover have "length rows = length (index prices)"
    using ix by (metis length_map length_sort)
  ultimately show ?thesis
    using c ix by (simp add: pack_lengths)
qed

lemma inventory_move_present:
  "inventory_move prices cur prev ivt acc =
   inventory_move prices cur prev (present prices ivt) acc"
  by (induction ivt arbitrary: acc) (auto simp: present_def)

lemma hedge_move_present:
  "hedge_move prices fm cur prev ivt acc =
   hedge_move prices fm cur prev (present prices ivt) acc"
  by (induction ivt arbitrary: acc) (auto simp: present_def)

lemma mtm_main_present:
  "mtm_main prices cur ivt acc = mtm_main prices cur (present prices ivt) acc"
  by (induction ivt arbitrary: acc) (auto simp: present_def split: sum.splits)

lemma mtm_hedge_present:
  "mtm_hedge prices fm cur ivt acc = mtm_hedge prices fm cur (present prices ivt) acc"
  by (induction ivt arbitrary: acc) (auto simp: present_def Let_def split: sum.splits)

lemma mark_to_market_present:
  "mark_to_market prices fm cur ivt ivh =
   mark_to_market prices fm cur (present prices ivt) (present prices ivh)"
  unfolding mark_to_market_def
  using mtm_main_present[of prices cur ivt 0] mtm_hedge_present[of prices fm cur ivh]
  by (simp split: sum.splits)

lemma present_inv_add:
  "present prices (inv_add ivt ticker v) =
     (if ticker \<in> set (columns prices) then inv_add (present prices ivt) ticker v
      else present prices ivt)"
  by (induction ivt) (auto simp: present_def)

lemma present_idem: "present prices (present prices ivt) = present prices ivt"
  by (simp add: present_def)

lemma trade_step_present:
  assumes "same_present prices a a2"
  shows "same_present prices (trade_step frc frh fpc fph tr a) (trade_step frc frh fpc fph tr a2)"
proof (cases tr)
  case (Client ct)
  show ?thesis using assms unfolding Client same_present_def
    by (simp add: Let_def present_inv_add)
next
  case (Hedge ht)
  show ?thesis using assms unfolding Hedge same_present_def
    by (simp add: Let_def present_inv_add)
qed

lemma fold_trade_step_present:
  "same_present prices a a2 \<Longrightarrow>
   same_present prices (fold (trade_step frc frh fpc fph) trs a)
                       (fold (trade_step frc frh fpc fph) trs a2)"
proof (induction trs arbitrary: a a2)
  case Nil
  then show ?case by simp
next
  case (Cons tr trs)
  have "same_present prices (trade_step frc frh fpc fph tr a) (trade_step frc frh fpc fph tr a2)"
    using Cons.prems by (rule trade_step_present)
  from Cons.IH[OF this] show ?case by simp
qed

lemma date_step_alt:
  "date_step mm prices frc frh fpc fph fm prev_date b d =
     (case mark_to_market prices fm d
             (inventory_main (after_trades mm frc frh fpc fph b d))
             (inventory_hedge (after_trades mm frc frh fpc fph b d)) of
        Inl e \<Rightarrow> Inl e
      | Inr port_val \<Rightarrow>
          Inr (\<lparr>f_spread_pnl = sp (after_trades mm frc frh fpc fph b d),
                f_inventory_pnl = move_main prices prev_date d (inventory_main b),
                f_hedge_pnl = move_hedge prices fm prev_date d (inventory_hedge b),
                f_client_cost = cc (after_trades mm frc frh fpc fph b d),
                f_hedge_cost = hc (after_trades mm frc frh fpc fph b d),
                f_equity = cash (after_trades mm frc frh fpc fph b d) + port_val\<rparr>,
               book.truncate (after_trades mm frc frh fpc fph b d)))"
proof (cases "mark_to_market prices fm d
             (inventory_main (after_trades mm frc frh fpc fph b d))
             (inventory_hedge (after_trades mm frc frh fpc fph b d))")
  case (Inl e)
  then show ?thesis
    by (cases prev_date)
       (simp_all add: date_step_def after_trades_def Let_def book.truncate_def)
next
  case (Inr pv)
  then show ?thesis
    by (cases prev_date)
       (simp_all add: date_step_def after_trades_def move_main_def move_hedge_def Let_def
          book.truncate_def)
qed

lemma after_trades_present:
  "same_present prices (after_trades mm frc frh fpc fph b d)
     (after_trades mm frc frh fpc fph (present_book prices b) d)"
  unfolding after_trades_def
  by (rule fold_trade_step_present)
     (simp add: same_present_def book.extend_def present_book_def present_idem)

lemma move_main_present:
  "move_main prices prev_date d (inventory_main (present_book prices b)) =
   move_main prices prev_date d (inventory_main b)"
  using inventory_move_present[of prices d _ "inventory_main b" 0]
  by (simp add: move_main_def present_book_def split: option.splits)

lemma move_hedge_present:
  "move_hedge prices fm prev_date d (inventory_hedge (present_book prices b)) =
   move_hedge prices fm prev_date d (inventory_hedge b)"
  using hedge_move_present[of prices fm d _ "inventory_hedge b" 0]
  by (simp add: move_hedge_def present_book_def split: option.splits)

lemma date_step_present:
  "map_sum id fst (date_step mm prices frc frh fpc fph fm prev_date b d) =
   map_sum id fst
     (date_step mm prices frc frh fpc fph fm prev_date (present_book prices b) d)"
proof -
  let ?a = "after_trades mm frc frh fpc fph b d"
  let ?a2 = "after_trades mm frc frh fpc fph (present_book prices b) d"
  have rel: "same_present prices ?a ?a2" by (rule after_trades_present)
  have "mark_to_market prices fm d (inventory_main ?a) (inventory_hedge ?a) =
        mark_to_market prices fm d (present prices (inventory_main ?a))
          (present prices (inventory_hedge ?a))"
    by (rule mark_to_market_present)
  also have "\<dots> = mark_to_market prices fm d (present prices (inventory_main ?a2))
          (present prices (inventory_hedge ?a2))"
    using rel by (simp add: same_present_def)
  also have "\<dots> = mark_to_market prices fm d (inventory_main ?a2) (inventory_hedge ?a2)"
    by (rule mark_to_market_present[symmetric])
  finally have mtm: "mark_to_market prices fm d (inventory_main ?a) (inventory_hedge ?a) =
        mark_to_market prices fm d (inventory_main ?a2) (inventory_hedge ?a2)" .
  have f: "sp ?a = sp ?a2" "cc ?a = cc ?a2" "hc ?a = hc ?a2" "cash ?a = cash ?a2"
    using rel by (simp_all add: same_present_def)
  show ?thesis
    unfolding date_step_alt mtm f move_main_present move_hedge_present
    by (cases "mark_to_market prices fm d (inventory_main ?a2) (inventory_hedge ?a2)") simp_all
qed

theorem total_pnl_by_construction_witness:
  "\<exists>df. compute_pnl_with_attribution example_mm example_prices 0 0 0 0 None = Inr df \<and>
        (1::nat) < length (df_index df) \<and>
        total_pnl df ! 1 =
          spread_pnl df ! 1 + inventory_pnl df ! 1 + hedge_pnl df ! 1
            - (client_cost df ! 1 + hedge_cost df ! 1)"
proof -
  obtain df where c: "compute_pnl_with_attribution example_mm example_prices 0 0 0 0 None = Inr df"
    and ix: "df_index df = sort (index example_prices)"
    and all: "\<forall>i < length (df_index df).
           total_pnl df ! i =
             spread_pnl df ! i + inventory_pnl df ! i + hedge_pnl df ! i
               - (client_cost df ! i + hedge_cost df ! i)"
    using total_pnl_by_construction[of example_mm example_prices 0 0 0 0 None] by blast
  have len: "(1::nat) < length (df_index df)"
    unfolding ix by (simp add: example_prices_def)
  from all len have "total_pnl df ! 1 =
             spread_pnl df ! 1 + inventory_pnl df ! 1 + hedge_pnl df ! 1
               - (client_cost df ! 1 + hedge_cost df ! 1)" by blast
  with c len show ?thesis by blast
qed

text \<open>
  Claim C8. An instrument that is no column of the price table contributes nothing: the
  inventory-PnL loop, the hedge-PnL loop and the mark-to-market of step 3 give the same
  result when the entries of such instruments are removed from the inventories, the entries
  the engine writes at a date are the same whether or not the book it starts from carries
  them, and the engine never raises, whatever the ledger and the table.
\<close>

theorem absent_instrument_contributes_nothing:
  "inventory_move prices cur prev ivm acc =
     inventory_move prices cur prev (present prices ivm) acc \<and>
   hedge_move prices fm cur prev ivh acc =
     hedge_move prices fm cur prev (present prices ivh) acc \<and>
   mark_to_market prices fm cur ivm ivh =
     mark_to_market prices fm cur (present prices ivm) (present prices ivh) \<and>
   map_sum id fst (date_step mm prices frc frh fpc fph fm prev_date b cur) =
     map_sum id fst
       (date_step mm prices frc frh fpc fph fm prev_date (present_book prices b) cur) \<and>
   (\<exists>df. compute_pnl_with_attribution mm prices frc frh fpc fph fmo = Inr df)"
proof -
  obtain rows where "attribution_rows mm prices frc frh fpc fph fmo = Inr rows"
    using attribution_rows_returns by blast
  then have "\<exists>df. compute_pnl_with_attribution mm prices frc frh fpc fph fmo = Inr df"
    by (simp add: compute_pnl_with_attribution_def)
  then show ?thesis
    using inventory_move_present[of prices cur prev ivm acc]
      hedge_move_present[of prices fm cur prev ivh acc]
      mark_to_market_present[of prices fm cur ivm ivh]
      date_step_present[of mm prices frc frh fpc fph fm prev_date b cur]
    by blast
qed

text \<open>
  Claim C6 as stated fails: a CompletedTrade with volume -5 and price -1 is constructed
  without error and carries the negative volume.
\<close>

theorem trade_record_negative_volume_counterexample:
  "CompletedTrade_init ''X'' (- 5) (- 1) ''buy'' 100 99 101 1 =
     Inr \<lparr>ct_ticker = ''X'', ct_trade_volume = - 5 :: real, ct_trade_price = - 1,
          ct_mm_action = ''buy'', ct_ref_price = 100, ct_bid_price = 99,
          ct_offer_price = 101, ct_date = 1\<rparr>"
  by (simp add: CompletedTrade_init_def)

text \<open>
  Claim C6, amended. Constructing a QuotedTrade, a CompletedTrade, an ETFPosition or an
  ExecutedTrade succeeds for all arguments, non-positive volumes and prices included, and the
  record holds the volume and the price it was given: the records perform no validation.
\<close>

theorem trade_records_store_arguments:
  "(\<exists>r. QuotedTrade_init ticker v rp bp op dt = Inr r \<and> qt_trade_volume r = v \<and>
        qt_ref_price r = rp) \<and>
   (\<exists>r. CompletedTrade_init ticker v p a rp bp op dt = Inr r \<and> ct_trade_volume r = v \<and>
        ct_trade_price r = p) \<and>
   (\<exists>r. ETFPosition_init ticker v p a dt = Inr r \<and> etf_trade_volume r = v \<and>
        etf_trade_price r = p) \<and>
   (\<exists>r. ExecutedTrade_init ticker v p a dt = Inr r \<and> ex_trade_volume r = v \<and>
        ex_trade_price r = p)"
  by (simp add: QuotedTrade_init_def CompletedTrade_init_def ETFPosition_init_def
      ExecutedTrade_init_def)
section \<open>Exact arithmetic: equity, accumulation and the simple engine\<close>
































section \<open>The exchange\<close>

text \<open>
  Claim C9 as stated fails: on a table whose index has the order's date twice, the lookup
  is a Series, \<^verbatim>\<open>float\<close> raises \<^verbatim>\<open>TypeError\<close>, which \<^verbatim>\<open>except KeyError\<close> does not catch,
  and \<^verbatim>\<open>execute\<close> returns no report.
\<close>

theorem execute_repeated_label_counterexample:
  "execute \<lparr>exchange_prices = repeated_date_prices\<rparr> example_order = Inl TypeError"
  by (simp add: execute_def loc_any_def float_of_def repeated_date_prices_def example_order_def)

text \<open>
  Claim C9, amended. For every order whose date is a row label of the table at most once
  and whose ticker is a column label at most once, \<^verbatim>\<open>Exchange.execute\<close> returns a report
  with the order's ticker, volume, action and date; its price is the cell of the table at the
  order's date and ticker when both are labels, and the order's reference price otherwise.
  Holds for any number type.
\<close>

theorem execute_fills_at_table_or_reference:
  assumes "count_list (index (exchange_prices self)) (xo_date trade) \<le> 1"
    and "count_list (columns (exchange_prices self)) (xo_ticker trade) \<le> 1"
  shows "execute self trade =
     Inr \<lparr>ex_ticker = xo_ticker trade,
          ex_trade_volume = xo_trade_volume trade,
          ex_trade_price =
            (if xo_date trade \<in> set (index (exchange_prices self)) \<and>
                xo_ticker trade \<in> set (columns (exchange_prices self))
             then cells (exchange_prices self) (xo_date trade) (xo_ticker trade)
             else xo_ref_price trade),
          ex_action = xo_action trade,
          ex_date = xo_date trade\<rparr>"
proof (cases "xo_date trade \<in> set (index (exchange_prices self)) \<and>
              xo_ticker trade \<in> set (columns (exchange_prices self))")
  case True
  then have "count_list (index (exchange_prices self)) (xo_date trade) \<noteq> 0"
    and "count_list (columns (exchange_prices self)) (xo_ticker trade) \<noteq> 0"
    by (simp_all add: count_list_0_iff)
  with assms have "count_list (index (exchange_prices self)) (xo_date trade) = 1"
    and "count_list (columns (exchange_prices self)) (xo_ticker trade) = 1"
    by simp_all
  with True show ?thesis
    by (simp add: execute_def loc_any_def float_of_def)
next
  case False
  then show ?thesis
    by (auto simp: execute_def loc_any_def)
qed

theorem execute_fills_at_table_or_reference_witness:
  "execute \<lparr>exchange_prices = example_prices\<rparr> example_order =
     Inr \<lparr>ex_ticker = ''X'', ex_trade_volume = 10, ex_trade_price = 100,
          ex_action = ''sell'', ex_date = 1\<rparr> \<and>
   execute \<lparr>exchange_prices = example_prices\<rparr> (example_order\<lparr>xo_date := 7\<rparr>) =
     Inr \<lparr>ex_ticker = ''X'', ex_trade_volume = 10, ex_trade_price = 101,
          ex_action = ''sell'', ex_date = 7\<rparr>"
proof -
  have a: "count_list (index (exchange_prices \<lparr>exchange_prices = example_prices\<rparr>))
             (xo_date example_order) \<le> 1"
    and b: "count_list (columns (exchange_prices \<lparr>exchange_prices = example_prices\<rparr>))
             (xo_ticker example_order) \<le> 1"
    by (simp_all add: example_prices_def example_order_def)
  have a': "count_list (index (exchange_prices \<lparr>exchange_prices = example_prices\<rparr>))
             (xo_date (example_order\<lparr>xo_date := 7\<rparr>)) \<le> 1"
    and b': "count_list (columns (exchange_prices \<lparr>exchange_prices = example_prices\<rparr>))
             (xo_ticker (example_order\<lparr>xo_date := 7\<rparr>)) \<le> 1"
    by (simp_all add: example_prices_def example_order_def)
  from execute_fills_at_table_or_reference[OF a b]
       execute_fills_at_table_or_reference[OF a' b']
  show ?thesis
    by (simp add: example_prices_def example_order_def)
qed

section \<open>Floating point: rounding\<close>

lemma pow2_pos: "0 < pow2 e"
  by (simp add: pow2_def)

lemma pow2_powr: "pow2 e = 2 powr (real_of_int e)"
  unfolding pow2_def using powr_int[of "2::real" e] by simp

lemma pow2_add: "pow2 (a + b) = pow2 a * pow2 b"
  by (simp add: pow2_powr powr_add)

lemma pow2_mono: "a \<le> b \<Longrightarrow> pow2 a \<le> pow2 b"
  by (simp add: pow2_powr)

lemma pow2_0: "pow2 0 = 1"
  by (simp add: pow2_def)

lemma rte_of_int: "rte (real_of_int n) = n"
  by (simp add: rte_def)

lemma rte_bounds: "\<lfloor>y\<rfloor> \<le> rte y \<and> rte y \<le> \<lfloor>y\<rfloor> + 1"
  by (simp add: rte_def Let_def)

lemma rte_le_int: "y \<le> real_of_int n \<Longrightarrow> rte y \<le> n"
proof -
  assume a: "y \<le> real_of_int n"
  show ?thesis
  proof (cases "y = real_of_int n")
    case True
    then show ?thesis by (simp add: rte_of_int)
  next
    case False
    with a have "y < real_of_int n" by simp
    then have "\<lfloor>y\<rfloor> < n" by (simp add: floor_less_iff)
    with rte_bounds[of y] show ?thesis by linarith
  qed
qed

lemma rte_ge_int: "real_of_int n \<le> y \<Longrightarrow> n \<le> rte y"
proof -
  assume "real_of_int n \<le> y"
  then have "n \<le> \<lfloor>y\<rfloor>" by (simp add: le_floor_iff)
  with rte_bounds[of y] show ?thesis by linarith
qed

lemma rte_mono: "x \<le> y \<Longrightarrow> rte x \<le> rte y"
proof -
  assume xy: "x \<le> y"
  have fl: "\<lfloor>x\<rfloor> \<le> \<lfloor>y\<rfloor>" using xy by (rule floor_mono)
  show ?thesis
  proof (cases "\<lfloor>x\<rfloor> < \<lfloor>y\<rfloor>")
    case True
    with rte_bounds[of x] rte_bounds[of y] show ?thesis by linarith
  next
    case False
    with fl have eq: "\<lfloor>x\<rfloor> = \<lfloor>y\<rfloor>" by simp
    define f where "f = \<lfloor>y\<rfloor>"
    define a where "a = x - real_of_int f"
    define b where "b = y - real_of_int f"
    have ab: "a \<le> b" using xy by (simp add: a_def b_def)
    have rx: "rte x = (if a < 1 / 2 then f else if 1 / 2 < a then f + 1
                       else if even f then f else f + 1)"
      by (simp add: rte_def Let_def eq f_def a_def)
    have ry: "rte y = (if b < 1 / 2 then f else if 1 / 2 < b then f + 1
                       else if even f then f else f + 1)"
      by (simp add: rte_def Let_def f_def b_def)
    consider "a < 1 / 2" | "a = 1 / 2" "b = 1 / 2" | "a = 1 / 2" "1 / 2 < b" | "1 / 2 < a"
      using ab by linarith
    then show ?thesis
    proof cases
      case 1
      then have "rte x = f" by (simp add: rx)
      moreover have "f \<le> rte y" by (simp add: ry)
      ultimately show ?thesis by simp
    next
      case 2
      then have "rte x = rte y" by (simp add: rx ry)
      then show ?thesis by simp
    next
      case 3
      then have "rte y = f + 1" by (simp add: ry)
      moreover have "rte x \<le> f + 1" by (simp add: rx)
      ultimately show ?thesis by simp
    next
      case 4
      with ab have "1 / 2 < b" by linarith
      then have "rte y = f + 1" by (simp add: ry)
      moreover have "rte x \<le> f + 1" by (simp add: rx)
      ultimately show ?thesis by simp
    qed
  qed
qed

lemma floor_log2_eq:
  assumes "pow2 k \<le> x" "x < pow2 (k + 1)"
  shows "\<lfloor>log 2 x\<rfloor> = k"
proof -
  have "0 < x" using assms(1) pow2_pos[of k] by linarith
  moreover have "2 powr (real_of_int k) \<le> x" using assms(1) by (simp add: pow2_powr)
  moreover have "x < 2 powr (real_of_int k + 1)"
    using assms(2) by (simp add: pow2_powr add.commute)
  ultimately show ?thesis
    by (simp add: floor_log_eq_powr_iff)
qed

lemma rnd_eval:
  assumes "pow2 k \<le> \<bar>x\<bar>" "\<bar>x\<bar> < pow2 (k + 1)" "- 1022 \<le> k"
  shows "rnd x = real_of_int (rte (x / pow2 (k - 52))) * pow2 (k - 52)"
proof -
  have "x \<noteq> 0" using assms(1) pow2_pos[of k] by auto
  moreover have "ulp_exp x = k - 52"
    using floor_log2_eq[OF assms(1,2)] assms(3) by (simp add: ulp_exp_def)
  ultimately show ?thesis by (simp add: rnd_def)
qed

lemma rnd_0: "rnd 0 = 0"
  by (simp add: rnd_def)

lemma pow2_nonneg_int: "0 \<le> e \<Longrightarrow> pow2 e = real_of_int (2 ^ nat e)"
  by (simp add: pow2_def)

lemma pow2_diff: "pow2 (a - b) = pow2 a / pow2 b"
  using pow2_add[of "a - b" b] pow2_pos[of b] by (simp add: field_simps)

text \<open>A multiple of \<open>2^u\<close>.\<close>

lemma rnd_on_grid:
  assumes "x = real_of_int n * pow2 (ulp_exp x)"
  shows "rnd x = x"
proof (cases "x = 0")
  case True
  then show ?thesis by (simp add: rnd_def)
next
  case False
  have "x / pow2 (ulp_exp x) = real_of_int n"
    using assms pow2_pos[of "ulp_exp x"] by (simp add: field_simps)
  then show ?thesis
    using False assms by (simp add: rnd_def rte_of_int)
qed

lemma floor_log2_less:
  assumes "0 < x" "x < pow2 j"
  shows "\<lfloor>log 2 x\<rfloor> < j"
proof -
  have "log 2 x < real_of_int j"
    using assms by (simp add: log_less_iff pow2_powr)
  then show ?thesis by (simp add: floor_less_iff)
qed

lemma ulp_exp_le:
  assumes "x = real_of_int m * pow2 e" "\<bar>m\<bar> < 2 ^ 53" "- 1074 \<le> e" "x \<noteq> 0"
  shows "ulp_exp x \<le> e"
proof -
  have "\<bar>x\<bar> = \<bar>real_of_int m\<bar> * pow2 e"
    using assms(1) pow2_pos[of e] by (simp add: abs_mult)
  moreover have "\<bar>real_of_int m\<bar> < 2 ^ 53"
    using assms(2) by (metis of_int_abs of_int_less_numeral_power_cancel_iff)
  ultimately have "\<bar>x\<bar> < 2 ^ 53 * pow2 e"
    using pow2_pos[of e] by simp
  also have "\<dots> = pow2 (53 + e)"
    using pow2_add[of 53 e] by (simp add: pow2_def)
  finally have "\<bar>x\<bar> < pow2 (53 + e)" .
  then have "\<lfloor>log 2 \<bar>x\<bar>\<rfloor> < 53 + e"
    using assms(4) by (intro floor_log2_less) simp_all
  then show ?thesis using assms(3) by (simp add: ulp_exp_def)
qed

lemma rnd_exact:
  assumes "is_double x"
  shows "rnd x = x"
proof (cases "x = 0")
  case True
  then show ?thesis by (simp add: rnd_def)
next
  case False
  from assms obtain m e where x: "x = real_of_int m * pow2 e" and m: "\<bar>m\<bar> < 2 ^ 53"
    and e: "- 1074 \<le> e" unfolding is_double_def by blast
  let ?u = "ulp_exp x"
  have ue: "?u \<le> e" by (rule ulp_exp_le[OF x m e False])
  have "pow2 e = pow2 (e - ?u) * pow2 ?u" using pow2_add[of "e - ?u" ?u] by simp
  also have "pow2 (e - ?u) = real_of_int (2 ^ nat (e - ?u))"
    using ue by (simp add: pow2_nonneg_int)
  finally have "x = real_of_int (m * 2 ^ nat (e - ?u)) * pow2 ?u"
    using x by simp
  then show ?thesis by (rule rnd_on_grid)
qed

lemma is_double_int: "\<bar>n\<bar> < 2 ^ 53 \<Longrightarrow> is_double (real_of_int n)"
  unfolding is_double_def by (rule exI[of _ n], rule exI[of _ 0]) (simp add: pow2_def)

lemma rnd_int: "\<bar>n\<bar> < 2 ^ 53 \<Longrightarrow> rnd (real_of_int n) = real_of_int n"
  by (rule rnd_exact) (rule is_double_int)

lemma rnd_numeral: "(numeral k :: int) < 2 ^ 53 \<Longrightarrow> rnd (numeral k) = numeral k"
  using rnd_int[of "numeral k"] by simp

lemma rnd_neg_numeral: "(numeral k :: int) < 2 ^ 53 \<Longrightarrow> rnd (- numeral k) = - numeral k"
  using rnd_int[of "- numeral k"] by simp

lemma rnd_1: "rnd 1 = 1"
  using rnd_int[of 1] by simp

lemma is_double_bound:
  assumes "is_double x"
  shows "\<bar>x\<bar> < huge"
proof -
  from assms obtain m e where x: "x = real_of_int m * pow2 e" and m: "\<bar>m\<bar> < 2 ^ 53"
    and e: "e \<le> 971" unfolding is_double_def by blast
  have "\<bar>x\<bar> = \<bar>real_of_int m\<bar> * pow2 e"
    using x pow2_pos[of e] by (simp add: abs_mult)
  moreover have "\<bar>real_of_int m\<bar> < 2 ^ 53"
    using m by (metis of_int_abs of_int_less_numeral_power_cancel_iff)
  ultimately have "\<bar>x\<bar> < 2 ^ 53 * pow2 e"
    using pow2_pos[of e] by simp
  also have "\<dots> \<le> 2 ^ 53 * pow2 971"
    using pow2_mono[OF e] by simp
  also have "\<dots> = huge"
    by (simp add: pow2_def huge_def)
  finally show ?thesis .
qed

lemma to_f64_exact: "is_double x \<Longrightarrow> to_f64 x = Fin x"
proof -
  assume d: "is_double x"
  from is_double_bound[OF d] have "x < huge" "- huge < x" by (simp_all add: abs_less_iff)
  then have "\<not> huge \<le> x" "\<not> x \<le> - huge" by simp_all
  then show ?thesis by (simp add: to_f64_def Let_def rnd_exact[OF d])
qed

lemma to_f64_int: "\<bar>n\<bar> < 2 ^ 53 \<Longrightarrow> to_f64 (real_of_int n) = Fin (real_of_int n)"
  by (rule to_f64_exact) (rule is_double_int)

lemma to_f64_numeral:
  "(numeral k :: int) < 2 ^ 53 \<Longrightarrow> to_f64 (numeral k) = Fin (numeral k)"
  using to_f64_int[of "numeral k"] by simp


lemma to_f64_0: "to_f64 0 = Fin 0"
  using to_f64_int[of 0] by simp

lemma to_f64_1: "to_f64 1 = Fin 1"
  using to_f64_int[of 1] by simp


lemma rte_numeral: "rte (numeral k) = numeral k"
  using rte_of_int[of "numeral k"] by simp

text \<open>Roundings at and above \<open>2^53\<close>.\<close>

lemma rnd_2_53: "rnd 9007199254740992 = 9007199254740992"
  using rnd_eval[of 53 9007199254740992] by (simp add: pow2_def rte_numeral)


lemma rnd_2_53_plus_2: "rnd 9007199254740994 = 9007199254740994"
  using rnd_eval[of 53 9007199254740994] by (simp add: pow2_def rte_numeral)












section \<open>Rounding is monotone and idempotent\<close>

text \<open>
  Rounding to the nearest double preserves order and leaves a double unchanged, so a value
  bounded by a double is rounded to a value within the same bound.
\<close>

lemma log2_bracket:
  assumes "x \<noteq> 0"
  shows "pow2 \<lfloor>log 2 \<bar>x\<bar>\<rfloor> \<le> \<bar>x\<bar>" and "\<bar>x\<bar> < pow2 (\<lfloor>log 2 \<bar>x\<bar>\<rfloor> + 1)"
proof -
  have pos: "0 < \<bar>x\<bar>" using assms by simp
  have "\<lfloor>log 2 \<bar>x\<bar>\<rfloor> = \<lfloor>log 2 \<bar>x\<bar>\<rfloor>" by simp
  then have "2 powr real_of_int \<lfloor>log 2 \<bar>x\<bar>\<rfloor> \<le> \<bar>x\<bar> \<and>
             \<bar>x\<bar> < 2 powr real_of_int (\<lfloor>log 2 \<bar>x\<bar>\<rfloor> + 1)"
    using floor_log_eq_powr_iff[OF pos, of 2 "\<lfloor>log 2 \<bar>x\<bar>\<rfloor>"] by simp
  then show "pow2 \<lfloor>log 2 \<bar>x\<bar>\<rfloor> \<le> \<bar>x\<bar>" and "\<bar>x\<bar> < pow2 (\<lfloor>log 2 \<bar>x\<bar>\<rfloor> + 1)"
    by (simp_all add: pow2_powr)
qed

lemma floor_log2_mono:
  assumes "0 < x" "x \<le> y"
  shows "\<lfloor>log 2 x\<rfloor> \<le> \<lfloor>log 2 y\<rfloor>"
proof -
  have "log 2 x \<le> log 2 y" using assms by simp
  then show ?thesis by (rule floor_mono)
qed

lemma ulp_exp_mono:
  assumes "x \<noteq> 0" "\<bar>x\<bar> \<le> \<bar>y\<bar>"
  shows "ulp_exp x \<le> ulp_exp y"
proof -
  have "\<lfloor>log 2 \<bar>x\<bar>\<rfloor> \<le> \<lfloor>log 2 \<bar>y\<bar>\<rfloor>"
    using assms by (intro floor_log2_mono) simp_all
  then show ?thesis by (simp add: ulp_exp_def)
qed

lemma ulp_exp_le_exp: "ulp_exp x \<le> max \<lfloor>log 2 \<bar>x\<bar>\<rfloor> (- 1074)"
  by (simp add: ulp_exp_def)

text \<open>A threshold on the grid of \<open>x\<close> is respected by rounding.\<close>

lemma rnd_le_grid:
  assumes "T = real_of_int n * pow2 (ulp_exp x)" "x \<le> T"
  shows "rnd x \<le> T"
proof (cases "x = 0")
  case True
  then show ?thesis using assms(2) by (simp add: rnd_def)
next
  case False
  let ?p = "pow2 (ulp_exp x)"
  have p: "0 < ?p" by (rule pow2_pos)
  have "x / ?p \<le> real_of_int n" using assms p by (simp add: field_simps)
  then have "rte (x / ?p) \<le> n" by (rule rte_le_int)
  then have "real_of_int (rte (x / ?p)) * ?p \<le> real_of_int n * ?p"
    using p by simp
  then show ?thesis using False assms(1) by (simp add: rnd_def)
qed

lemma rnd_ge_grid:
  assumes "T = real_of_int n * pow2 (ulp_exp x)" "T \<le> x"
  shows "T \<le> rnd x"
proof (cases "x = 0")
  case True
  then show ?thesis using assms(2) by (simp add: rnd_def)
next
  case False
  let ?p = "pow2 (ulp_exp x)"
  have p: "0 < ?p" by (rule pow2_pos)
  have "real_of_int n \<le> x / ?p" using assms p by (simp add: field_simps)
  then have "n \<le> rte (x / ?p)" by (rule rte_ge_int)
  then have "real_of_int n * ?p \<le> real_of_int (rte (x / ?p)) * ?p"
    using p by simp
  then show ?thesis using False assms(1) by (simp add: rnd_def)
qed

lemma pow2_on_grid:
  assumes "u \<le> j"
  shows "pow2 j = real_of_int (2 ^ nat (j - u)) * pow2 u"
proof -
  have "pow2 j = pow2 (j - u) * pow2 u" using pow2_add[of "j - u" u] by simp
  also have "pow2 (j - u) = real_of_int (2 ^ nat (j - u))"
    using assms by (simp add: pow2_nonneg_int)
  finally show ?thesis .
qed

lemma neg_pow2_on_grid:
  assumes "u \<le> j"
  shows "- pow2 j = real_of_int (- (2 ^ nat (j - u))) * pow2 u"
  using pow2_on_grid[OF assms] by simp

lemma rnd_nonneg: "0 \<le> x \<Longrightarrow> 0 \<le> rnd x"
  using rnd_ge_grid[of 0 0 x] by simp

lemma rnd_nonpos: "x \<le> 0 \<Longrightarrow> rnd x \<le> 0"
  using rnd_le_grid[of 0 0 x] by simp

lemma rnd_same_grid:
  assumes "x \<le> y" "ulp_exp x = ulp_exp y" "x \<noteq> 0" "y \<noteq> 0"
  shows "rnd x \<le> rnd y"
proof -
  let ?p = "pow2 (ulp_exp y)"
  have p: "0 < ?p" by (rule pow2_pos)
  have "x / ?p \<le> y / ?p" using assms(1) p by (simp add: divide_right_mono)
  then have "rte (x / ?p) \<le> rte (y / ?p)" by (rule rte_mono)
  then have "real_of_int (rte (x / ?p)) * ?p \<le> real_of_int (rte (y / ?p)) * ?p"
    using p by simp
  then show ?thesis using assms(2,3,4) by (simp add: rnd_def)
qed

lemma rnd_mono_pos:
  assumes "0 < x" "x \<le> y"
  shows "rnd x \<le> rnd y"
proof -
  have x0: "x \<noteq> 0" and y0: "y \<noteq> 0" using assms by simp_all
  have ax: "\<bar>x\<bar> = x" and ay: "\<bar>y\<bar> = y" using assms by simp_all
  let ?kx = "\<lfloor>log 2 \<bar>x\<bar>\<rfloor>" and ?ky = "\<lfloor>log 2 \<bar>y\<bar>\<rfloor>"
  have uxy: "ulp_exp x \<le> ulp_exp y"
    using assms by (intro ulp_exp_mono) simp_all
  show ?thesis
  proof (cases "ulp_exp x = ulp_exp y")
    case True
    then show ?thesis using assms x0 y0 by (intro rnd_same_grid) simp_all
  next
    case False
    with uxy have lt: "ulp_exp x < ulp_exp y" by simp
    then have uy: "ulp_exp y = ?ky - 52" and kxy: "?kx < ?ky"
      by (simp_all add: ulp_exp_def max_def split: if_splits)
    have gx: "ulp_exp x \<le> ?ky" using lt uy by simp
    have gy: "ulp_exp y \<le> ?ky" using uy by simp
    have "x < pow2 (?kx + 1)" using log2_bracket(2)[OF x0] ax by simp
    also have "\<dots> \<le> pow2 ?ky" using kxy by (intro pow2_mono) simp
    finally have xT: "x \<le> pow2 ?ky" by simp
    have Ty: "pow2 ?ky \<le> y" using log2_bracket(1)[OF y0] ay by simp
    have "rnd x \<le> pow2 ?ky"
      by (rule rnd_le_grid[OF pow2_on_grid[OF gx] xT])
    also have "pow2 ?ky \<le> rnd y"
      by (rule rnd_ge_grid[OF pow2_on_grid[OF gy] Ty])
    finally show ?thesis .
  qed
qed

lemma rnd_mono_neg:
  assumes "x \<le> y" "y < 0"
  shows "rnd x \<le> rnd y"
proof -
  have x0: "x \<noteq> 0" and y0: "y \<noteq> 0" using assms by simp_all
  have ax: "\<bar>x\<bar> = - x" and ay: "\<bar>y\<bar> = - y" using assms by simp_all
  let ?kx = "\<lfloor>log 2 \<bar>x\<bar>\<rfloor>" and ?ky = "\<lfloor>log 2 \<bar>y\<bar>\<rfloor>"
  have uyx: "ulp_exp y \<le> ulp_exp x"
    using assms by (intro ulp_exp_mono) simp_all
  show ?thesis
  proof (cases "ulp_exp x = ulp_exp y")
    case True
    then show ?thesis using assms x0 y0 by (intro rnd_same_grid) simp_all
  next
    case False
    with uyx have lt: "ulp_exp y < ulp_exp x" by simp
    then have ux: "ulp_exp x = ?kx - 52" and kyx: "?ky < ?kx"
      by (simp_all add: ulp_exp_def max_def split: if_splits)
    have gx: "ulp_exp x \<le> ?kx" using ux by simp
    have gy: "ulp_exp y \<le> ?kx" using lt ux by simp
    have "- y < pow2 (?ky + 1)" using log2_bracket(2)[OF y0] ay by simp
    also have "\<dots> \<le> pow2 ?kx" using kyx by (intro pow2_mono) simp
    finally have Ty: "- pow2 ?kx \<le> y" by simp
    have xT: "x \<le> - pow2 ?kx" using log2_bracket(1)[OF x0] ax by simp
    have "rnd x \<le> - pow2 ?kx"
      by (rule rnd_le_grid[OF neg_pow2_on_grid[OF gx] xT])
    also have "- pow2 ?kx \<le> rnd y"
      by (rule rnd_ge_grid[OF neg_pow2_on_grid[OF gy] Ty])
    finally show ?thesis .
  qed
qed

lemma rnd_mono: "x \<le> y \<Longrightarrow> rnd x \<le> rnd y"
proof -
  assume xy: "x \<le> y"
  consider "0 < x" | "y < 0" | "x \<le> 0" "0 \<le> y" by linarith
  then show ?thesis
  proof cases
    case 1
    then show ?thesis using xy by (rule rnd_mono_pos)
  next
    case 2
    with xy show ?thesis by (rule rnd_mono_neg)
  next
    case 3
    then have "rnd x \<le> 0" "0 \<le> rnd y" by (simp_all add: rnd_nonpos rnd_nonneg)
    then show ?thesis by simp
  qed
qed

text \<open>A rounded value lies on its own grid, so rounding it again changes nothing.\<close>

lemma rnd_abs_le_top:
  assumes "x \<noteq> 0"
  shows "\<bar>rnd x\<bar> \<le> pow2 (max (\<lfloor>log 2 \<bar>x\<bar>\<rfloor> + 1) (- 1074))"
proof -
  let ?k = "\<lfloor>log 2 \<bar>x\<bar>\<rfloor>"
  let ?j = "max (?k + 1) (- 1074)"
  have g: "ulp_exp x \<le> ?j" by (simp add: ulp_exp_def)
  have "\<bar>x\<bar> < pow2 (?k + 1)" by (rule log2_bracket(2)[OF assms])
  also have "\<dots> \<le> pow2 ?j" by (intro pow2_mono) simp
  finally have b: "\<bar>x\<bar> < pow2 ?j" .
  have "rnd x \<le> pow2 ?j"
    using b by (intro rnd_le_grid[OF pow2_on_grid[OF g]]) simp
  moreover have "- pow2 ?j \<le> rnd x"
    using b by (intro rnd_ge_grid[OF neg_pow2_on_grid[OF g]]) simp
  ultimately show ?thesis by simp
qed

lemma pow2_strict_mono: "a < b \<Longrightarrow> pow2 a < pow2 b"
  by (simp add: pow2_powr)

lemma rnd_self_grid: "\<exists>n. rnd x = real_of_int n * pow2 (ulp_exp (rnd x))"
proof (cases "rnd x = 0")
  case True
  then show ?thesis by (intro exI[of _ 0]) simp
next
  case False
  then have x0: "x \<noteq> 0" by (auto simp: rnd_def)
  define u where "u = ulp_exp x"
  define r where "r = rnd x"
  define k where "k = \<lfloor>log 2 \<bar>x\<bar>\<rfloor>"
  define kr where "kr = \<lfloor>log 2 \<bar>r\<bar>\<rfloor>"
  define j where "j = max (k + 1) (- 1074)"
  have r0: "r \<noteq> 0" using False by (simp add: r_def)
  have u_def': "u = max (k - 52) (- 1074)" by (simp add: u_def k_def ulp_exp_def)
  have ur_def: "ulp_exp r = max (kr - 52) (- 1074)" by (simp add: kr_def ulp_exp_def)
  obtain n where n: "r = real_of_int n * pow2 u"
    using x0 by (auto simp: rnd_def r_def u_def)
  have top: "\<bar>r\<bar> \<le> pow2 j"
    using rnd_abs_le_top[OF x0] by (simp add: r_def j_def k_def)
  have lo: "pow2 kr \<le> \<bar>r\<bar>" using log2_bracket(1)[OF r0] by (simp add: kr_def)
  have "\<exists>n. r = real_of_int n * pow2 (ulp_exp r)"
  proof (cases "ulp_exp r \<le> u")
    case True
    have "pow2 u = real_of_int (2 ^ nat (u - ulp_exp r)) * pow2 (ulp_exp r)"
      by (rule pow2_on_grid[OF True])
    then have "r = real_of_int (n * 2 ^ nat (u - ulp_exp r)) * pow2 (ulp_exp r)"
      using n by simp
    then show ?thesis by blast
  next
    case False
    then have gt: "u < ulp_exp r" by simp
    have kk: "j \<le> kr" using gt unfolding ur_def u_def' j_def by linarith
    have kr: "kr = j"
    proof (rule ccontr)
      assume "kr \<noteq> j"
      with kk have "j < kr" by simp
      then have "pow2 j < pow2 kr" by (rule pow2_strict_mono)
      with lo top show False by simp
    qed
    have eq: "\<bar>r\<bar> = pow2 j" using lo top kr by simp
    have g: "ulp_exp r \<le> j" unfolding ur_def kr j_def by linarith
    consider "r = pow2 j" | "r = - pow2 j"
      using eq by (auto simp: abs_if split: if_splits)
    then show ?thesis
    proof cases
      case 1
      then show ?thesis using pow2_on_grid[OF g] by metis
    next
      case 2
      then show ?thesis using neg_pow2_on_grid[OF g] by metis
    qed
  qed
  then show ?thesis by (simp add: r_def)
qed

lemma rnd_idem: "rnd (rnd x) = rnd x"
proof -
  obtain n where "rnd x = real_of_int n * pow2 (ulp_exp (rnd x))"
    using rnd_self_grid by blast
  then show ?thesis by (rule rnd_on_grid)
qed

lemma rnd_le_rounded: "x \<le> rnd y \<Longrightarrow> rnd x \<le> rnd y"
  using rnd_mono[of x "rnd y"] by (simp add: rnd_idem)

lemma rnd_ge_rounded: "rnd y \<le> x \<Longrightarrow> rnd y \<le> rnd x"
  using rnd_mono[of "rnd y" x] by (simp add: rnd_idem)

lemma huge_gt_1: "1 < huge"
  by (simp add: huge_def)

lemma ulp_exp_neg: "ulp_exp (- x) = ulp_exp x"
  by (simp add: ulp_exp_def)

lemma rnd_neg_rounded: "rnd (- rnd y) = - rnd y"
proof -
  obtain n where n: "rnd y = real_of_int n * pow2 (ulp_exp (rnd y))"
    using rnd_self_grid[of y] by blast
  have "- rnd y = real_of_int (- n) * pow2 (ulp_exp (- rnd y))"
    using n by (simp add: ulp_exp_neg)
  then show ?thesis by (rule rnd_on_grid)
qed

lemma rnd_abs_le_rounded:
  assumes "\<bar>x\<bar> \<le> rnd y"
  shows "\<bar>rnd x\<bar> \<le> rnd y"
proof -
  have "x \<le> rnd y" using assms by linarith
  then have up: "rnd x \<le> rnd y" by (rule rnd_le_rounded)
  have "- rnd y \<le> x" using assms by linarith
  then have "rnd (- rnd y) \<le> rnd x" by (rule rnd_mono)
  then have "- rnd y \<le> rnd x" by (simp add: rnd_neg_rounded)
  with up show ?thesis by linarith
qed

lemma to_f64_mono:
  assumes "x \<le> y"
  shows "f64_le (to_f64 x) (to_f64 y)"
proof -
  have r: "rnd x \<le> rnd y" using assms by (rule rnd_mono)
  have h: "0 < huge" using huge_gt_1 by linarith
  show ?thesis
    unfolding to_f64_def Let_def using r h by auto
qed

lemma to_f64_not_NaN: "to_f64 x \<noteq> NaN"
  by (simp add: to_f64_def Let_def)

lemma to_f64_nonneg:
  assumes "0 \<le> x" "to_f64 x \<noteq> PInf"
  shows "to_f64 x = Fin (rnd x) \<and> 0 \<le> rnd x \<and> rnd x < huge"
proof -
  have r: "0 \<le> rnd x" using assms(1) by (rule rnd_nonneg)
  have h: "0 < huge" using huge_gt_1 by linarith
  have "\<not> huge \<le> rnd x" using assms(2) by (auto simp add: to_f64_def Let_def)
  then show ?thesis using r h by (simp add: to_f64_def Let_def)
qed

lemma to_f64_bounded:
  assumes "\<bar>x\<bar> \<le> rnd y" "rnd y < huge"
  shows "to_f64 x = Fin (rnd x) \<and> \<bar>rnd x\<bar> \<le> rnd y"
proof -
  have b: "\<bar>rnd x\<bar> \<le> rnd y" using assms(1) by (rule rnd_abs_le_rounded)
  then have "\<not> huge \<le> rnd x" "\<not> rnd x \<le> - huge" using assms(2) by linarith+
  then show ?thesis using b by (simp add: to_f64_def Let_def)
qed

lemma tanh_abs_le_1: "\<bar>tanh (x::real)\<bar> \<le> 1"
  using tanh_real_lt_1[of x] tanh_real_gt_neg1[of x] by linarith

lemma tanh64_range:
  assumes "raw \<noteq> NaN"
  shows "\<exists>tv. tanh64 raw = Fin tv \<and> \<bar>tv\<bar> \<le> 1"
proof (cases raw)
  case (Fin x)
  have "\<bar>tanh x\<bar> \<le> rnd 1" using tanh_abs_le_1[of x] by (simp add: rnd_1)
  moreover have "rnd 1 < huge" using huge_gt_1 by (simp add: rnd_1)
  ultimately have "to_f64 (tanh x) = Fin (rnd (tanh x)) \<and> \<bar>rnd (tanh x)\<bar> \<le> rnd 1"
    by (rule to_f64_bounded)
  then show ?thesis using Fin by (simp add: rnd_1)
next
  case PInf
  then show ?thesis by simp
next
  case NInf
  then show ?thesis by simp
next
  case NaN
  then show ?thesis using assms by simp
qed

lemma f64_div_nonzero:
  assumes "d \<noteq> 0" "a \<noteq> NaN"
  shows "\<exists>raw. f64_div a (Fin d) = Inr raw \<and> raw \<noteq> NaN"
  using assms by (cases a) (simp_all add: to_f64_not_NaN)

lemma f64_le_add_sub:
  assumes "0 \<le> h"
  shows "f64_le (to_f64 z + f64_neg (Fin h)) (to_f64 z + Fin h)"
proof (cases "to_f64 z")
  case (Fin xv)
  have "xv + - h \<le> xv + h" using assms by linarith
  then have "f64_le (to_f64 (xv + - h)) (to_f64 (xv + h))" by (rule to_f64_mono)
  then show ?thesis using Fin by (simp add: plus_f64_def)
next
  case PInf
  then show ?thesis by (simp add: plus_f64_def)
next
  case NInf
  then show ?thesis by (simp add: plus_f64_def)
next
  case NaN
  then show ?thesis using to_f64_not_NaN[of z] by simp
qed

lemma f64_halve_nonneg:
  assumes "0 \<le> rnd y" "rnd y < huge"
  shows "\<exists>h. f64_halve (Fin (rnd y)) = Fin h \<and> 0 \<le> h"
proof -
  have "\<bar>rnd y / 2\<bar> \<le> rnd y" using assms(1) by simp
  then have "to_f64 (rnd y / 2) = Fin (rnd (rnd y / 2)) \<and> \<bar>rnd (rnd y / 2)\<bar> \<le> rnd y"
    using assms(2) by (rule to_f64_bounded)
  moreover have "0 \<le> rnd (rnd y / 2)" using assms(1) by (simp add: rnd_nonneg)
  ultimately show ?thesis by simp
qed

lemma quote_skew_bounded:
  assumes p: "0 < p" and m: "0 < m" and d: "d \<noteq> 0"
    and pm: "Fin p * Fin m \<noteq> PInf"
  shows "\<exists>sk. quote_skew (Fin p) (Fin i) (Fin d) (Fin s) (Fin m) = Inr (Fin sk)
           \<and> Fin p * Fin m = Fin (rnd (p * m)) \<and> \<bar>sk\<bar> \<le> rnd (p * m)"
proof -
  have "Fin s * Fin i \<noteq> NaN" by (simp add: times_f64_def to_f64_not_NaN)
  then obtain raw where raw: "f64_div (Fin s * Fin i) (Fin d) = Inr raw" "raw \<noteq> NaN"
    using f64_div_nonzero[OF d] by blast
  obtain tv where tv: "tanh64 raw = Fin tv" "\<bar>tv\<bar> \<le> 1"
    using tanh64_range[OF raw(2)] by blast
  have "0 \<le> p * m" using p m by simp
  moreover have "to_f64 (p * m) \<noteq> PInf" using pm by (simp add: times_f64_def)
  ultimately have f: "to_f64 (p * m) = Fin (rnd (p * m))" "0 \<le> rnd (p * m)"
    "rnd (p * m) < huge"
    using to_f64_nonneg[of "p * m"] by blast+
  have "\<bar>rnd (p * m) * tv\<bar> = rnd (p * m) * \<bar>tv\<bar>"
    using f(2) by (simp add: abs_mult)
  also have "\<dots> \<le> rnd (p * m) * 1"
    using tv(2) f(2) by (rule mult_left_mono)
  finally have "\<bar>rnd (p * m) * tv\<bar> \<le> rnd (p * m)" by simp
  then have sk: "to_f64 (rnd (p * m) * tv) = Fin (rnd (rnd (p * m) * tv))"
    "\<bar>rnd (rnd (p * m) * tv)\<bar> \<le> rnd (p * m)"
    using to_f64_bounded[OF _ f(3)] by blast+
  have "quote_skew (Fin p) (Fin i) (Fin d) (Fin s) (Fin m)
          = Inr (Fin (rnd (rnd (p * m) * tv)))"
    using raw(1) tv(1) f(1) sk(1) by (simp add: quote_skew_def times_f64_def)
  moreover have "Fin p * Fin m = Fin (rnd (p * m))"
    using f(1) by (simp add: times_f64_def)
  ultimately show ?thesis using sk(2) by blast
qed

text \<open>Concrete roundings: powers of two, the overflow threshold, and \<open>tanh 100\<close>.\<close>

lemma to_f64_dyadic:
  assumes "\<bar>n\<bar> < 2 ^ 53" "- 1074 \<le> e" "e \<le> 971"
  shows "to_f64 (real_of_int n * pow2 e) = Fin (real_of_int n * pow2 e)"
proof -
  have "is_double (real_of_int n * pow2 e)"
    unfolding is_double_def using assms by blast
  then show ?thesis by (rule to_f64_exact)
qed

lemma to_f64_pow2:
  assumes "- 1074 \<le> e" "e \<le> 1023"
  shows "to_f64 (pow2 e) = Fin (pow2 e)"
proof (cases "e \<le> 971")
  case True
  then show ?thesis using to_f64_dyadic[of 1 e] assms(1) by simp
next
  case False
  then have u: "(971::int) \<le> e" by simp
  have "nat (e - 971) < 53" using assms(2) by simp
  then have "(2::int) ^ nat (e - 971) < 2 ^ 53" by (rule power_strict_increasing) simp
  then have "\<bar>2 ^ nat (e - 971) :: int\<bar> < 2 ^ 53" by simp
  then have "to_f64 (real_of_int (2 ^ nat (e - 971)) * pow2 971)
               = Fin (real_of_int (2 ^ nat (e - 971)) * pow2 971)"
    by (rule to_f64_dyadic) simp_all
  then show ?thesis using pow2_on_grid[OF u] by simp
qed

lemma rnd_huge: "rnd (pow2 1024) = pow2 1024"
proof -
  have "pow2 1024 \<le> \<bar>pow2 1024\<bar>" by simp
  moreover have "\<bar>pow2 1024\<bar> < pow2 (1024 + 1)"
    using pow2_strict_mono[of 1024 1025] pow2_pos[of 1024] by simp
  ultimately have "rnd (pow2 1024)
      = real_of_int (rte (pow2 1024 / pow2 (1024 - 52))) * pow2 (1024 - 52)"
    by (rule rnd_eval) simp
  moreover have "pow2 1024 / pow2 (1024 - 52) = real_of_int (2 ^ 52)"
    using pow2_diff[of 1024 972, symmetric] by (simp add: pow2_def)
  moreover have "real_of_int (2 ^ 52) * pow2 (1024 - 52) = pow2 1024"
    using pow2_add[of 52 972] by (simp add: pow2_def)
  ultimately show ?thesis by (simp only: rte_of_int)
qed

lemma to_f64_huge: "to_f64 (pow2 1024) = PInf"
  unfolding to_f64_def Let_def rnd_huge by (simp add: huge_def pow2_def)

lemma rte_round_up:
  assumes "real_of_int n - 1 / 2 < y" "y \<le> real_of_int n"
  shows "rte y = n"
proof (cases "y = real_of_int n")
  case True
  then show ?thesis by (simp add: rte_of_int)
next
  case False
  then have "y < real_of_int n" using assms(2) by simp
  moreover have "real_of_int (n - 1) \<le> y" using assms(1) by simp
  ultimately have f: "\<lfloor>y\<rfloor> = n - 1" by linarith
  have "1 / 2 < y - real_of_int (n - 1)" using assms(1) by simp
  then show ?thesis unfolding rte_def Let_def f by simp
qed

lemma rte_round_down:
  assumes "real_of_int n \<le> y" "y < real_of_int n + 1 / 2"
  shows "rte y = n"
proof -
  have f: "\<lfloor>y\<rfloor> = n" using assms by linarith
  have "y - real_of_int n < 1 / 2" using assms(2) by simp
  then show ?thesis unfolding rte_def Let_def f by simp
qed

lemma exp_200_ge: "2 ^ 200 \<le> exp (200::real)"
proof -
  have e2: "2 \<le> exp (1::real)" using exp_ge_add_one_self[of 1] by simp
  have "exp (200::real) = exp 1 ^ 200" using exp_of_nat_mult[of 200 "1::real"] by simp
  moreover have "(2::real) ^ 200 \<le> exp 1 ^ 200" using e2 by (rule power_mono) simp
  ultimately show ?thesis by simp
qed

lemma tanh_100_close: "1 - 1 / 2 ^ 54 < tanh (100::real)"
proof -
  define E where "E = exp (- 200 :: real)"
  have Epos: "0 < E" by (simp add: E_def)
  have "E = inverse (exp 200)" unfolding E_def using exp_minus[of "200::real"] by simp
  also have "\<dots> \<le> inverse (2 ^ 200)"
    by (rule le_imp_inverse_le[OF exp_200_ge]) simp
  finally have Ele: "E \<le> 1 / 2 ^ 200" by (simp add: inverse_eq_divide)
  have t: "tanh (100::real) = (1 - E) / (1 + E)"
    using tanh_real_altdef[of 100] by (simp add: E_def)
  have "1 - 2 * E \<le> (1 - E) / (1 + E)"
  proof -
    have "(1 - 2 * E) * (1 + E) \<le> 1 - E"
    proof -
      have "(1 - 2 * E) * (1 + E) = 1 - E - 2 * E * E" by (simp add: algebra_simps)
      moreover have "0 \<le> 2 * E * E" using Epos by simp
      ultimately show ?thesis by linarith
    qed
    then show ?thesis using Epos by (simp add: pos_le_divide_eq)
  qed
  moreover have "1 - 1 / 2 ^ 54 < 1 - 2 * E" using Ele by simp
  ultimately show ?thesis using t by linarith
qed

lemma rnd_tanh_100: "rnd (tanh (100::real)) = 1"
proof -
  let ?t = "tanh (100::real)"
  have lo: "1 - 1 / 2 ^ 54 < ?t" by (rule tanh_100_close)
  have hi: "?t < 1" by (rule tanh_real_lt_1)
  have "pow2 (- 1) \<le> \<bar>?t\<bar>" using lo by (simp add: pow2_def)
  moreover have "\<bar>?t\<bar> < pow2 (- 1 + 1)" using lo hi by (simp add: pow2_def)
  ultimately have r: "rnd ?t = real_of_int (rte (?t / pow2 (- 1 - 52))) * pow2 (- 1 - 52)"
    by (rule rnd_eval) simp
  have p: "?t / pow2 (- 1 - 52) = ?t * 2 ^ 53" by (simp add: pow2_def)
  have "real_of_int (2 ^ 53) - 1 / 2 < ?t * 2 ^ 53" using lo by simp
  moreover have "?t * 2 ^ 53 \<le> real_of_int (2 ^ 53)" using hi by simp
  ultimately have "rte (?t * 2 ^ 53) = 2 ^ 53" by (rule rte_round_up)
  then show ?thesis using r p by (simp add: pow2_def)
qed

lemma to_f64_tanh_100: "to_f64 (tanh (100::real)) = Fin 1"
  using huge_gt_1 by (simp add: to_f64_def Let_def rnd_tanh_100)

lemma rnd_below_pow2_60: "rnd (pow2 60 + - pow2 (- 1)) = pow2 60"
proof -
  let ?x = "pow2 60 + - pow2 (- 1)"
  have "pow2 59 \<le> \<bar>?x\<bar>" by (simp add: pow2_def)
  moreover have "\<bar>?x\<bar> < pow2 (59 + 1)" by (simp add: pow2_def)
  ultimately have r: "rnd ?x = real_of_int (rte (?x / pow2 (59 - 52))) * pow2 (59 - 52)"
    by (rule rnd_eval) simp
  have "real_of_int (2 ^ 53) - 1 / 2 < ?x / pow2 (59 - 52)" by (simp add: pow2_def)
  moreover have "?x / pow2 (59 - 52) \<le> real_of_int (2 ^ 53)" by (simp add: pow2_def)
  ultimately have "rte (?x / pow2 (59 - 52)) = 2 ^ 53" by (rule rte_round_up)
  then show ?thesis using r by (simp add: pow2_def)
qed

lemma rnd_above_pow2_60: "rnd (pow2 60 + pow2 (- 1)) = pow2 60"
proof -
  let ?x = "pow2 60 + pow2 (- 1)"
  have "pow2 60 \<le> \<bar>?x\<bar>" by (simp add: pow2_def)
  moreover have "\<bar>?x\<bar> < pow2 (60 + 1)" by (simp add: pow2_def)
  ultimately have r: "rnd ?x = real_of_int (rte (?x / pow2 (60 - 52))) * pow2 (60 - 52)"
    by (rule rnd_eval) simp
  have "real_of_int (2 ^ 52) \<le> ?x / pow2 (60 - 52)" by (simp add: pow2_def)
  moreover have "?x / pow2 (60 - 52) < real_of_int (2 ^ 52) + 1 / 2" by (simp add: pow2_def)
  ultimately have "rte (?x / pow2 (60 - 52)) = 2 ^ 52" by (rule rte_round_down)
  then show ?thesis using r by (simp add: pow2_def)
qed

lemma pow2_60_lt_huge: "pow2 60 < huge"
  by (simp add: pow2_def huge_def)

lemma to_f64_below_pow2_60: "to_f64 (pow2 60 + - pow2 (- 1)) = Fin (pow2 60)"
  using pow2_60_lt_huge pow2_pos[of 60]
  by (simp add: to_f64_def Let_def rnd_below_pow2_60 del: add_uminus_conv_diff)

lemma to_f64_above_pow2_60: "to_f64 (pow2 60 + pow2 (- 1)) = Fin (pow2 60)"
  using pow2_60_lt_huge pow2_pos[of 60]
  by (simp add: to_f64_def Let_def rnd_above_pow2_60)

section \<open>Positions, equity and the simple engine in the arithmetic of the code\<close>





















section \<open>The skewed quote\<close>

text \<open>The quotes of the examples, evaluated in double arithmetic.\<close>

lemma to_f64_25_16: "to_f64 (25 / 16) = Fin (25 / 16)"
  using to_f64_dyadic[of 25 "- 4"] by (simp add: pow2_def)

lemma to_f64_100: "to_f64 100 = Fin 100"
  by (simp add: to_f64_numeral)

lemma tanh64_100: "tanh64 (Fin 100) = Fin 1"
  by (simp add: to_f64_tanh_100)

lemma saturated_raw_skew: "f64_div (Fin 1 * Fin 100) (Fin 1) = Inr (Fin 100)"
  by (simp add: times_f64_def to_f64_100)

lemma zero_raw_skew: "f64_div (Fin 1 * Fin 0) (Fin 1) = Inr (Fin 0)"
  by (simp add: times_f64_def to_f64_0)

lemma tanh64_0: "tanh64 (Fin 0) = Fin 0"
  by (simp add: to_f64_0)

lemma saturated_quote_skew:
  "quote_skew (Fin 100) (Fin 100) (Fin 1) (Fin 1) (Fin (1 / 64)) = Inr (Fin (25 / 16))"
  unfolding quote_skew_def saturated_raw_skew sum.case tanh64_100
  by (simp add: times_f64_def to_f64_25_16)

lemma saturated_bound: "Fin 100 * Fin (1 / 64) = Fin (25 / 16)"
  by (simp add: times_f64_def to_f64_25_16)

lemma pow2_60_6: "pow2 60 * pow2 (- 6) = pow2 54"
  using pow2_add[of 60 "- 6"] by simp

lemma pow2_60_60: "pow2 60 * pow2 (- 60) = 1"
  using pow2_add[of 60 "- 60"] by (simp add: pow2_0)

lemma half_is_pow2: "1 / 2 = pow2 (- 1)"
  by (simp add: pow2_def)

lemma to_f64_half: "to_f64 (1 / 2) = Fin (pow2 (- 1))"
  unfolding half_is_pow2 by (rule to_f64_pow2) simp_all

lemma narrow_quote_skew:
  "quote_skew (Fin (pow2 60)) (Fin 0) (Fin 1) (Fin 1) (Fin (pow2 (- 6))) = Inr (Fin 0)"
proof -
  have "Fin (pow2 60) * Fin (pow2 (- 6)) = Fin (pow2 54)"
    unfolding times_f64_def f64_mul.simps pow2_60_6 by (rule to_f64_pow2) simp_all
  then show ?thesis
    unfolding quote_skew_def zero_raw_skew sum.case tanh64_0
    by (simp add: times_f64_def to_f64_0)
qed

lemma narrow_quote:
  "skewed_quote (Fin (pow2 60)) (Fin (pow2 (- 60))) (Fin 0) (Fin 1) (Fin 1) (Fin (pow2 (- 6)))
     = Inr (Fin (pow2 60), Fin (pow2 60))"
proof -
  have s: "Fin (pow2 60) * Fin (pow2 (- 60)) = Fin 1"
    unfolding times_f64_def f64_mul.simps pow2_60_60 by (rule to_f64_1)
  have h: "f64_halve (Fin 1) = Fin (pow2 (- 1))"
    by (simp add: to_f64_half)
  have x: "Fin (pow2 60) + Fin 0 = Fin (pow2 60)"
    unfolding plus_f64_def f64_add.simps add_0_right by (rule to_f64_pow2) simp_all
  have b: "Fin (pow2 60) - Fin (pow2 (- 1)) = Fin (pow2 60)"
    unfolding minus_f64_def f64_neg.simps f64_add.simps by (rule to_f64_below_pow2_60)
  have a: "Fin (pow2 60) + Fin (pow2 (- 1)) = Fin (pow2 60)"
    unfolding plus_f64_def f64_add.simps by (rule to_f64_above_pow2_60)
  show ?thesis
    unfolding skewed_quote_def narrow_quote_skew sum.case Let_def s h x b a by simp
qed

lemma pow2_1023_2: "pow2 1023 * 2 = pow2 1024"
  using pow2_add[of 1023 1] by (simp add: pow2_def)

lemma pow2_1023_twice: "pow2 1023 + pow2 1023 = pow2 1024"
  using pow2_1023_2 by simp

lemma to_f64_pow2_1023: "to_f64 (pow2 1023) = Fin (pow2 1023)"
  by (rule to_f64_pow2) simp_all

lemma overflow_bound: "Fin (pow2 1023) * Fin 2 = PInf"
  unfolding times_f64_def f64_mul.simps pow2_1023_2 by (rule to_f64_huge)

lemma overflow_quote_skew:
  "quote_skew (Fin (pow2 1023)) (Fin 0) (Fin 1) (Fin 1) (Fin 2) = Inr NaN"
  unfolding quote_skew_def zero_raw_skew sum.case tanh64_0 overflow_bound
  by (simp add: times_f64_def)

lemma overflow_quote:
  "skewed_quote (Fin (pow2 1023)) (Fin (1 / 4)) (Fin 0) (Fin 1) (Fin 1) (Fin 2)
     = Inr (NaN, NaN)"
  unfolding skewed_quote_def overflow_quote_skew sum.case Let_def
  by (simp add: plus_f64_def minus_f64_def)

lemma wide_quote_skew:
  "quote_skew (Fin (pow2 1023)) (Fin 100) (Fin 1) (Fin 1) (Fin 1) = Inr (Fin (pow2 1023))"
proof -
  have "Fin (pow2 1023) * Fin 1 = Fin (pow2 1023)"
    unfolding times_f64_def f64_mul.simps mult_1_right by (rule to_f64_pow2_1023)
  then show ?thesis
    unfolding quote_skew_def saturated_raw_skew sum.case tanh64_100 by simp
qed

lemma wide_quote:
  "skewed_quote (Fin (pow2 1023)) (Fin 2) (Fin 100) (Fin 1) (Fin 1) (Fin 1) = Inr (NaN, PInf)"
proof -
  have x: "Fin (pow2 1023) + Fin (pow2 1023) = PInf"
    unfolding plus_f64_def f64_add.simps pow2_1023_twice by (rule to_f64_huge)
  show ?thesis
    unfolding skewed_quote_def wide_quote_skew sum.case overflow_bound Let_def x
    by (simp add: plus_f64_def minus_f64_def)
qed

lemma zero_ideal_size_quote:
  "skewed_quote (Fin 100) (Fin (1 / 64)) (Fin 100) (Fin 0) (Fin 1) (Fin (1 / 64))
     = Inl ZeroDivisionError"
  by (simp add: skewed_quote_def quote_skew_def)

text \<open>
  Claim C7 as stated fails in the float arithmetic of the code. The hyperbolic tangent of
  100 rounds to 1, so at price 100, inventory 100, ideal size 1, sensitivity 1 and maximal
  skew 1/64 the skew is 25/16, which is \<^verbatim>\<open>current_price * max_skew\<close> itself: the bound is
  attained, not strict. At price \<open>2^60\<close> and base spread \<open>2^-60\<close> the half spread 1/2 is
  lost in both roundings and the bid equals the offer. An ideal size of 0.0 raises
  \<^verbatim>\<open>ZeroDivisionError\<close>. When \<^verbatim>\<open>current_price * max_skew\<close> overflows and the inventory is 0
  the skew is \<open>inf * 0\<close>, a NaN, and so are both quotes; when \<^verbatim>\<open>current_price * base_spread\<close>
  and \<^verbatim>\<open>current_price + skew\<close> both overflow the bid is \<open>inf - inf\<close>, a NaN.
\<close>

theorem skewed_quote_counterexample:
  "quote_skew (Fin 100) (Fin 100) (Fin 1) (Fin 1) (Fin (1 / 64)) = Inr (Fin (25 / 16))
   \<and> Fin 100 * Fin (1 / 64) = Fin (25 / 16)
   \<and> \<not> f64_less (abs (Fin (25 / 16))) (Fin (25 / 16))
   \<and> skewed_quote (Fin (pow2 60)) (Fin (pow2 (- 60))) (Fin 0) (Fin 1) (Fin 1)
        (Fin (pow2 (- 6))) = Inr (Fin (pow2 60), Fin (pow2 60))
   \<and> \<not> f64_less (Fin (pow2 60)) (Fin (pow2 60))
   \<and> skewed_quote (Fin 100) (Fin (1 / 64)) (Fin 100) (Fin 0) (Fin 1) (Fin (1 / 64))
        = Inl ZeroDivisionError
   \<and> skewed_quote (Fin (pow2 1023)) (Fin (1 / 4)) (Fin 0) (Fin 1) (Fin 1) (Fin 2)
        = Inr (NaN, NaN)
   \<and> skewed_quote (Fin (pow2 1023)) (Fin 2) (Fin 100) (Fin 1) (Fin 1) (Fin 1)
        = Inr (NaN, PInf)"
  unfolding saturated_quote_skew saturated_bound narrow_quote zero_ideal_size_quote
    overflow_quote wide_quote
  by (simp add: abs_f64_def)

text \<open>
  Claim C7, amended. For all finite float arguments with \<^verbatim>\<open>current_price > 0\<close>,
  \<^verbatim>\<open>base_spread > 0\<close>, \<^verbatim>\<open>max_skew > 0\<close> and a nonzero ideal size, such that neither
  \<^verbatim>\<open>current_price * max_skew\<close> nor \<^verbatim>\<open>current_price * base_spread\<close> overflows,
  \<^verbatim>\<open>skewed_quote\<close> returns a pair \<open>(bid_price, offer_price)\<close> with \<open>bid_price \<le> offer_price\<close>,
  and the applied skew satisfies \<open>|skew| \<le> current_price * max_skew\<close>, the product as the
  code computes it, whatever the inventory and the sensitivity. Both inequalities are
  comparisons of floats. Of \<^verbatim>\<open>np.tanh\<close> the proof uses only that its values are doubles
  between -1 and 1.
\<close>

theorem skewed_quote_bounded:
  assumes "0 < p" and "0 < b" and "0 < m" and "d \<noteq> 0"
    and "Fin p * Fin m \<noteq> PInf" and "Fin p * Fin b \<noteq> PInf"
  shows "\<exists>skew bid offer.
           quote_skew (Fin p) (Fin i) (Fin d) (Fin s) (Fin m) = Inr skew
         \<and> skewed_quote (Fin p) (Fin b) (Fin i) (Fin d) (Fin s) (Fin m) = Inr (bid, offer)
         \<and> f64_le (abs skew) (Fin p * Fin m)
         \<and> f64_le bid offer"
proof -
  obtain sk where sk: "quote_skew (Fin p) (Fin i) (Fin d) (Fin s) (Fin m) = Inr (Fin sk)"
    "Fin p * Fin m = Fin (rnd (p * m))" "\<bar>sk\<bar> \<le> rnd (p * m)"
    using quote_skew_bounded[OF assms(1,3,4,5)] by blast
  have "0 \<le> p * b" using assms(1,2) by simp
  moreover have "to_f64 (p * b) \<noteq> PInf" using assms(6) by (simp add: times_f64_def)
  ultimately have f: "to_f64 (p * b) = Fin (rnd (p * b))" "0 \<le> rnd (p * b)"
    "rnd (p * b) < huge"
    using to_f64_nonneg[of "p * b"] by blast+
  obtain h where h: "f64_halve (Fin (rnd (p * b))) = Fin h" "0 \<le> h"
    using f64_halve_nonneg[OF f(2,3)] by blast
  have le: "f64_le (to_f64 (p + sk) + f64_neg (Fin h)) (to_f64 (p + sk) + Fin h)"
    using h(2) by (rule f64_le_add_sub)
  have q: "skewed_quote (Fin p) (Fin b) (Fin i) (Fin d) (Fin s) (Fin m)
             = Inr (to_f64 (p + sk) + f64_neg (Fin h), to_f64 (p + sk) + Fin h)"
    using sk(1) f(1) h(1)
    by (simp add: skewed_quote_def Let_def times_f64_def plus_f64_def minus_f64_def)
  have "f64_le (abs (Fin sk)) (Fin p * Fin m)"
    using sk(2,3) by (simp add: abs_f64_def)
  then show ?thesis using sk(1) q le by blast
qed

theorem skewed_quote_bounded_witness:
  "\<exists>skew bid offer.
      quote_skew (Fin 100) (Fin 100) (Fin 1) (Fin 1) (Fin (1 / 64)) = Inr skew
    \<and> skewed_quote (Fin 100) (Fin (1 / 64)) (Fin 100) (Fin 1) (Fin 1) (Fin (1 / 64))
        = Inr (bid, offer)
    \<and> f64_le (abs skew) (Fin 100 * Fin (1 / 64))
    \<and> f64_le bid offer"
proof -
  have "Fin 100 * Fin (1 / 64) \<noteq> PInf" by (simp add: saturated_bound)
  then show ?thesis
    using skewed_quote_bounded[of 100 "1 / 64" "1 / 64" 1 100 1] by simp
qed

end
